theory Spec2Isabelle
  imports Main "HOL-Library.Word"
begin

section \<open>The fetch pipeline of SCR (src/scr\_fetch.c)\<close>

text \<open>
  The theory embeds the functions of \<^verbatim>\<open>scr_fetch.c\<close>. Each function of that file is a
  HOL function of the same name. What the file calls but does not define (the hash
  library, the meta data and filemap objects, the file system, zlib, MPI) is either a
  small executable model, marked as such, or a field of the record \<open>sys\<close>: the answer
  the outside world gives to one call. Every call with an effect outside the process is
  logged as an \<open>event\<close>, in program order; an answer of the outside world may depend on
  all calls made before it, so the \<open>sys\<close> fields take the log as their first argument.
  Diagnostic output (\<^verbatim>\<open>scr_err\<close>, \<^verbatim>\<open>scr_dbg\<close>) is left out.
\<close>

subsection \<open>Return codes and scalar types\<close>

datatype rc = SCR_SUCCESS | SCR_FAILURE

type_synonym byte = "8 word"
type_synonym uLong = "64 word"

text \<open>
  \<^verbatim>\<open>unsigned long\<close> byte counts are \<open>nat\<close> (values below \<open>2 ^ 64\<close>), \<^verbatim>\<open>int\<close> is
  \<open>int\<close>. The one place where the source mixes the two, the comparison
  \<^verbatim>\<open>nread < count\<close> of an \<^verbatim>\<open>int\<close> with an \<^verbatim>\<open>unsigned long\<close>, converts the \<^verbatim>\<open>int\<close>
  as C does. The number of bytes read by one call is stored in an \<^verbatim>\<open>int\<close>; it is at most
  the buffer size, which is taken to be below \<open>2 ^ 31\<close>.
\<close>

definition ulong_of_int :: "int \<Rightarrow> nat" where
  "ulong_of_int i = nat (i mod 2 ^ 64)"

subsection \<open>Key/value trees (scr\_hash)\<close>

text \<open>
  Modelled from the spec: the KVTree collaborator, \<^verbatim>\<open>scr_hash\<close> in the source, whose
  implementation is not part of the sources. A hash is an ordered list of elements,
  each a string key with a child hash; a scalar value is the key of the first element
  of a child hash. A \<^verbatim>\<open>NULL\<close> pointer is \<open>None\<close>.
\<close>

datatype scr_hash = Hash "(string \<times> scr_hash) list"

fun elems :: "scr_hash \<Rightarrow> (string \<times> scr_hash) list" where
  "elems (Hash kvs) = kvs"

definition scr_hash_new :: scr_hash where
  "scr_hash_new = Hash []"

definition scr_hash_elem_get :: "scr_hash option \<Rightarrow> string \<Rightarrow> (string \<times> scr_hash) option" where
  "scr_hash_elem_get h k =
     (case h of None \<Rightarrow> None | Some h' \<Rightarrow> find (\<lambda>e. fst e = k) (elems h'))"

definition scr_hash_get :: "scr_hash option \<Rightarrow> string \<Rightarrow> scr_hash option" where
  "scr_hash_get h k = map_option snd (scr_hash_elem_get h k)"

definition scr_hash_set :: "scr_hash \<Rightarrow> string \<Rightarrow> scr_hash \<Rightarrow> scr_hash" where
  "scr_hash_set h k v = Hash (filter (\<lambda>e. fst e \<noteq> k) (elems h) @ [(k, v)])"

definition scr_hash_size :: "scr_hash option \<Rightarrow> nat" where
  "scr_hash_size h = (case h of None \<Rightarrow> 0 | Some h' \<Rightarrow> length (elems h'))"

fun scr_hash_merge :: "scr_hash \<Rightarrow> scr_hash \<Rightarrow> scr_hash" where
  "scr_hash_merge (Hash d) (Hash []) = Hash d"
| "scr_hash_merge (Hash d) (Hash ((k, v) # rest)) =
     scr_hash_merge
       (Hash (case map_of d k of
                None \<Rightarrow> d @ [(k, scr_hash_merge (Hash []) v)]
              | Some c \<Rightarrow>
                  map (\<lambda>e. if fst e = k then (k, scr_hash_merge (snd e) v) else e) d))
       (Hash rest)"

definition scr_hash_elem_get_first_val :: "scr_hash option \<Rightarrow> string \<Rightarrow> string option" where
  "scr_hash_elem_get_first_val h k =
     (case scr_hash_get h k of
        None \<Rightarrow> None
      | Some c \<Rightarrow> (case elems c of [] \<Rightarrow> None | e # _ \<Rightarrow> Some (fst e)))"

text \<open>Scalars are written in decimal; a getter fails on a missing key or on other text.\<close>

definition digit_val :: "char \<Rightarrow> nat option" where
  "digit_val c =
     (let n = of_char c :: nat in if 48 \<le> n \<and> n \<le> 57 then Some (n - 48) else None)"

fun dec_digits :: "nat \<Rightarrow> string \<Rightarrow> nat option" where
  "dec_digits acc [] = Some acc"
| "dec_digits acc (c # cs) =
     (case digit_val c of None \<Rightarrow> None | Some d \<Rightarrow> dec_digits (10 * acc + d) cs)"

definition dec_nat :: "string \<Rightarrow> nat option" where
  "dec_nat s = (if s = [] then None else dec_digits 0 s)"

definition dec_int :: "string \<Rightarrow> int option" where
  "dec_int s =
     (case s of
        [] \<Rightarrow> None
      | c # cs \<Rightarrow>
          if c = CHR ''-'' then map_option (\<lambda>n. - int n) (dec_nat cs)
          else map_option int (dec_nat s))"

definition atoi :: "string \<Rightarrow> int" where
  "atoi s = (case dec_int s of None \<Rightarrow> 0 | Some i \<Rightarrow> i)"

fun digits_of :: "nat \<Rightarrow> string" where
  "digits_of n =
     (if n < 10 then [char_of (48 + n)] else digits_of (n div 10) @ [char_of (48 + n mod 10)])"

definition format_d :: "int \<Rightarrow> string" where
  "format_d i = (if i < 0 then CHR ''-'' # digits_of (nat (- i)) else digits_of (nat i))"

definition scr_hash_util_get_str :: "scr_hash option \<Rightarrow> string \<Rightarrow> string option" where
  "scr_hash_util_get_str h k = scr_hash_elem_get_first_val h k"

definition scr_hash_util_get_int :: "scr_hash option \<Rightarrow> string \<Rightarrow> int option" where
  "scr_hash_util_get_int h k = Option.bind (scr_hash_elem_get_first_val h k) dec_int"

definition scr_hash_util_get_unsigned_long :: "scr_hash option \<Rightarrow> string \<Rightarrow> nat option" where
  "scr_hash_util_get_unsigned_long h k = Option.bind (scr_hash_elem_get_first_val h k) dec_nat"

definition scr_hash_util_get_bytecount :: "scr_hash option \<Rightarrow> string \<Rightarrow> nat option" where
  "scr_hash_util_get_bytecount h k = Option.bind (scr_hash_elem_get_first_val h k) dec_nat"

definition scr_hash_util_get_crc32 :: "scr_hash option \<Rightarrow> string \<Rightarrow> uLong option" where
  "scr_hash_util_get_crc32 h k =
     map_option of_nat (Option.bind (scr_hash_elem_get_first_val h k) dec_nat)"

definition scr_hash_util_set_str :: "scr_hash \<Rightarrow> string \<Rightarrow> string \<Rightarrow> scr_hash" where
  "scr_hash_util_set_str h k v = scr_hash_set h k (Hash [(v, Hash [])])"

definition scr_hash_getf_d :: "scr_hash option \<Rightarrow> int \<Rightarrow> scr_hash option" where
  "scr_hash_getf_d h i = scr_hash_get h (format_d i)"

definition scr_hash_sort_int :: "scr_hash \<Rightarrow> scr_hash" where
  "scr_hash_sort_int h = Hash (sort_key (\<lambda>e. atoi (fst e)) (elems h))"

text \<open>
  The key macros are not defined in the sources; each stands for a fixed string. The
  source reads with \<^verbatim>\<open>SCR_KEY_DATASET\<close> and \<^verbatim>\<open>SCR_KEY_FILE\<close> what it stores with
  \<^verbatim>\<open>SCR_SUMMARY_6_KEY_DATASET\<close> and \<^verbatim>\<open>SCR_SUMMARY_6_KEY_FILE\<close>, so those pairs are equal.
\<close>

definition SCR_SUMMARY_6_KEY_LENGTH :: string where "SCR_SUMMARY_6_KEY_LENGTH = ''LENGTH''"
definition SCR_SUMMARY_6_KEY_CONTAINER :: string where "SCR_SUMMARY_6_KEY_CONTAINER = ''CTR''"
definition SCR_SUMMARY_6_KEY_ID :: string where "SCR_SUMMARY_6_KEY_ID = ''ID''"
definition SCR_SUMMARY_6_KEY_OFFSET :: string where "SCR_SUMMARY_6_KEY_OFFSET = ''OFFSET''"
definition SCR_SUMMARY_6_KEY_SEGMENT :: string where "SCR_SUMMARY_6_KEY_SEGMENT = ''SEG''"
definition SCR_SUMMARY_6_KEY_NOFETCH :: string where "SCR_SUMMARY_6_KEY_NOFETCH = ''NOFETCH''"
definition SCR_SUMMARY_6_KEY_DATASET :: string where "SCR_SUMMARY_6_KEY_DATASET = ''DSET''"
definition SCR_SUMMARY_6_KEY_RANK2FILE :: string where "SCR_SUMMARY_6_KEY_RANK2FILE = ''RANK2FILE''"
definition SCR_SUMMARY_6_KEY_RANK :: string where "SCR_SUMMARY_6_KEY_RANK = ''RANK''"
definition SCR_SUMMARY_6_KEY_FILE :: string where "SCR_SUMMARY_6_KEY_FILE = ''FILE''"
definition SCR_KEY_DATASET :: string where "SCR_KEY_DATASET = ''DSET''"
definition SCR_KEY_FILE :: string where "SCR_KEY_FILE = ''FILE''"
definition SCR_KEY_NAME :: string where "SCR_KEY_NAME = ''NAME''"
definition SCR_KEY_SIZE :: string where "SCR_KEY_SIZE = ''SIZE''"
definition SCR_KEY_CRC :: string where "SCR_KEY_CRC = ''CRC''"
definition SCR_KEY_PATH :: string where "SCR_KEY_PATH = ''PATH''"
definition SCR_DATASET_KEY_ID :: string where "SCR_DATASET_KEY_ID = ''ID''"

subsection \<open>Meta data objects (scr\_meta)\<close>

text \<open>
  Modelled from the spec: the per-file meta
  \<open>{filename, filetype, filesize, complete, crc32?, ranks}\<close>. A field that was never set
  is \<open>None\<close>, and its getter fails.
\<close>

datatype filetype = SCR_META_FILE_FULL

record scr_meta =
  meta_FILE :: "string option"
  meta_TYPE :: "filetype option"
  meta_SIZE :: "nat option"
  meta_COMPLETE :: "int option"
  meta_RANKS :: "int option"
  meta_CRC :: "uLong option"

definition scr_meta_new :: scr_meta where
  "scr_meta_new =
     \<lparr>meta_FILE = None, meta_TYPE = None, meta_SIZE = None,
      meta_COMPLETE = None, meta_RANKS = None, meta_CRC = None\<rparr>"

definition scr_meta_set_filename :: "scr_meta \<Rightarrow> string \<Rightarrow> scr_meta" where
  "scr_meta_set_filename m f = m\<lparr>meta_FILE := Some f\<rparr>"

definition scr_meta_set_filetype :: "scr_meta \<Rightarrow> filetype \<Rightarrow> scr_meta" where
  "scr_meta_set_filetype m ft = m\<lparr>meta_TYPE := Some ft\<rparr>"

definition scr_meta_set_filesize :: "scr_meta \<Rightarrow> nat \<Rightarrow> scr_meta" where
  "scr_meta_set_filesize m n = m\<lparr>meta_SIZE := Some n\<rparr>"

definition scr_meta_set_complete :: "scr_meta \<Rightarrow> int \<Rightarrow> scr_meta" where
  "scr_meta_set_complete m c = m\<lparr>meta_COMPLETE := Some c\<rparr>"

definition scr_meta_set_ranks :: "scr_meta \<Rightarrow> int \<Rightarrow> scr_meta" where
  "scr_meta_set_ranks m r = m\<lparr>meta_RANKS := Some r\<rparr>"

definition scr_meta_set_crc32 :: "scr_meta \<Rightarrow> uLong \<Rightarrow> scr_meta" where
  "scr_meta_set_crc32 m c = m\<lparr>meta_CRC := Some c\<rparr>"

definition scr_meta_get_filename :: "scr_meta \<Rightarrow> string option" where
  "scr_meta_get_filename m = meta_FILE m"

definition scr_meta_get_crc32 :: "scr_meta \<Rightarrow> uLong option" where
  "scr_meta_get_crc32 m = meta_CRC m"

subsection \<open>The outside world\<close>

datatype open_flags = O_RDONLY | O_WRONLY_CREAT_TRUNC

datatype read_result = Read_error | Read_bytes "byte list"

text \<open>The calls that act outside the process, with their arguments.\<close>

datatype event =
    E_scr_open string open_flags
  | E_posix_fadvise int
  | E_malloc nat
  | E_lseek int nat
  | E_scr_read_attempt string int nat
  | E_scr_write_attempt string int "byte list"
  | E_scr_close string int
  | E_scr_copy_to string string
  | E_scr_filemap_add_file int int string
  | E_scr_filemap_write string
  | E_scr_filemap_set_meta int int string scr_meta
  | E_scr_filemap_set_expected_files int int int
  | E_symlink string string
  | E_scr_file_unlink string
  | E_scr_index_mark_fetched int string
  | E_scr_index_mark_failed int string
  | E_scr_index_write string

text \<open>
  The globals of \<^verbatim>\<open>scr_globals.h\<close> that the fetch code reads. \<open>indeterminate_int\<close> and
  \<open>indeterminate_uLong\<close> are the values an uninitialised local happens to hold.
\<close>

record config =
  scr_crc_on_flush :: bool
  scr_file_buf_size :: nat
  scr_my_rank_world :: int
  scr_ranks_world :: int
  scr_fetch_width :: int
  scr_map_file :: string
  scr_par_prefix :: string
  indeterminate_int :: int
  indeterminate_uLong :: uLong

text \<open>
  The answers of the outside world. \<open>scr_read_attempt\<close> answers with the bytes the
  descriptor has to offer, of which the call delivers at most \<open>count\<close>; \<open>scr_open\<close>
  answers with the descriptor (negative on failure); \<open>malloc\<close> and \<open>lseek\<close> answer
  whether they succeeded; \<open>scr_copy_to\<close> answers with its return code, the path it
  stored in \<^verbatim>\<open>newfile\<close> and the CRC it computed. \<open>scr_split_path\<close>, \<open>scr_build_path\<close> and
  \<open>crc32\<close> are functions of their arguments alone.

  The remaining fields are answers given to rank 0. \<open>readlink\<close> answers with the link's
  target (\<open>None\<close>: a negative return); \<open>scr_index_get_id_by_dir\<close> and
  \<open>scr_index_get_most_recent_complete\<close> answer with what they store in their
  out-parameters (\<open>None\<close>: they store nothing); the index itself lives behind these
  calls. \<open>fetch_outcome\<close> is the outcome of one collective fetch attempt on a non-empty
  directory, the part of \<^verbatim>\<open>scr_fetch_files\<close> after its empty-directory check: the
  return code, which the collectives make the same on every rank, and the dataset and
  checkpoint ids.
\<close>

record sys =
  scr_open :: "event list \<Rightarrow> string \<Rightarrow> open_flags \<Rightarrow> int"
  malloc :: "event list \<Rightarrow> nat \<Rightarrow> bool"
  lseek :: "event list \<Rightarrow> int \<Rightarrow> nat \<Rightarrow> bool"
  scr_read_attempt :: "event list \<Rightarrow> string \<Rightarrow> int \<Rightarrow> nat \<Rightarrow> read_result"
  scr_write_attempt :: "event list \<Rightarrow> string \<Rightarrow> int \<Rightarrow> byte list \<Rightarrow> int"
  scr_close :: "event list \<Rightarrow> string \<Rightarrow> int \<Rightarrow> rc"
  scr_copy_to :: "event list \<Rightarrow> string \<Rightarrow> string \<Rightarrow> rc \<times> string \<times> uLong"
  scr_split_path :: "string \<Rightarrow> string \<times> string"
  scr_build_path :: "string \<Rightarrow> string \<Rightarrow> rc \<times> string"
  crc32 :: "uLong \<Rightarrow> byte list \<Rightarrow> uLong"
  scr_file_is_readable :: "event list \<Rightarrow> string \<Rightarrow> rc"
  scr_summary_read :: "event list \<Rightarrow> string \<Rightarrow> rc \<times> scr_hash"
  scr_index_read :: "event list \<Rightarrow> string \<Rightarrow> rc"
  readlink :: "event list \<Rightarrow> string \<Rightarrow> string option"
  scr_index_get_id_by_dir :: "event list \<Rightarrow> string \<Rightarrow> int option"
  scr_index_get_most_recent_complete :: "event list \<Rightarrow> int \<Rightarrow> (int \<times> string) option"
  fetch_outcome :: "event list \<Rightarrow> string \<Rightarrow> rc \<times> int \<times> int"

subsection \<open>scr\_container\_get\_name\_size\_offset\_length\<close>

text \<open>
  The four out-parameters are the components of the result; \<open>None\<close> is
  \<^verbatim>\<open>SCR_FAILURE\<close>. The out-pointers are never \<^verbatim>\<open>NULL\<close> at the call in this file.
\<close>

definition scr_container_get_name_size_offset_length ::
  "scr_hash option \<Rightarrow> scr_hash option \<Rightarrow> (string \<times> nat \<times> nat \<times> nat) option" where
  "scr_container_get_name_size_offset_length segment containers =
     (if segment = None \<or> containers = None then None
      else
        (case scr_hash_util_get_bytecount segment SCR_SUMMARY_6_KEY_LENGTH of
          None \<Rightarrow> None
        | Some len \<Rightarrow>
            (let container = scr_hash_get segment SCR_SUMMARY_6_KEY_CONTAINER in
             (case scr_hash_util_get_int container SCR_SUMMARY_6_KEY_ID of
               None \<Rightarrow> None
             | Some container_id \<Rightarrow>
                 (case scr_hash_util_get_bytecount container SCR_SUMMARY_6_KEY_OFFSET of
                   None \<Rightarrow> None
                 | Some offset \<Rightarrow>
                     (let info = scr_hash_getf_d containers container_id in
                      (case scr_hash_util_get_str info SCR_KEY_NAME of
                        None \<Rightarrow> None
                      | Some name \<Rightarrow>
                          (case scr_hash_util_get_bytecount info SCR_KEY_SIZE of
                            None \<Rightarrow> None
                          | Some sz \<Rightarrow> Some (name, sz, offset, len)))))))))"

subsection \<open>scr\_fetch\_file\_from\_containers\<close>

text \<open>
  The inner \<^verbatim>\<open>while (remaining > 0)\<close> loop. With a buffer size of zero the loop reads
  nothing and \<open>remaining\<close> never shrinks, so the loop carries fuel: \<open>None\<close> as return
  code means that the fuel ran out before the loop ended. The log is returned in either
  case. A \<^verbatim>\<open>break\<close> returns \<^verbatim>\<open>SCR_FAILURE\<close> from this loop only. \<open>read_chunk\<close> is
  \<^verbatim>\<open>scr_read_attempt\<close> as its caller sees it: the value returned and the bytes now in
  the buffer.
\<close>

definition read_chunk :: "sys \<Rightarrow> event list \<Rightarrow> string \<Rightarrow> int \<Rightarrow> nat \<Rightarrow> int \<times> byte list" where
  "read_chunk s t name fd count =
     (case scr_read_attempt s t name fd count of
        Read_error \<Rightarrow> (- 1, [])
      | Read_bytes bs \<Rightarrow> (int (length (take count bs)), take count bs))"

fun copy_loop ::
  "nat \<Rightarrow> sys \<Rightarrow> config \<Rightarrow> string \<Rightarrow> int \<Rightarrow> string \<Rightarrow> int \<Rightarrow> nat \<Rightarrow> rc \<Rightarrow> uLong \<Rightarrow> event list
    \<Rightarrow> rc option \<times> uLong \<times> event list" where
  "copy_loop 0 s cfg container_name fd_container file fd_src remaining rc crc t = (None, crc, t)"
| "copy_loop (Suc n) s cfg container_name fd_container file fd_src remaining rc crc t =
     (if remaining > 0 then
        let count = (if remaining > scr_file_buf_size cfg then scr_file_buf_size cfg else remaining);
            t1 = t @ [E_scr_read_attempt container_name fd_container count]
        in
        (case read_chunk s t container_name fd_container count of
           (nread, buf) \<Rightarrow>
             if nread > 0 then
               let crc1 = (if scr_crc_on_flush cfg then crc32 s crc buf else crc);
                   nwrite = scr_write_attempt s t1 file fd_src buf;
                   t2 = t1 @ [E_scr_write_attempt file fd_src buf]
               in
               if nwrite \<noteq> nread then (Some SCR_FAILURE, crc1, t2)
               else if ulong_of_int nread < count then (Some SCR_FAILURE, crc1, t2)
               else if nread < 0 then (Some SCR_FAILURE, crc1, t2)
               else copy_loop n s cfg container_name fd_container file fd_src
                      (remaining - nat nread) rc crc1 t2
             else if ulong_of_int nread < count then (Some SCR_FAILURE, crc, t1)
             else if nread < 0 then (Some SCR_FAILURE, crc, t1)
             else copy_loop n s cfg container_name fd_container file fd_src remaining rc crc t1)
      else (Some rc, crc, t))"

text \<open>
  The \<^verbatim>\<open>for\<close> loop over the sorted segments. A failure to resolve, open or seek the
  container leaves the \<^verbatim>\<open>for\<close> loop (\<^verbatim>\<open>break\<close>); after the copy loop the container is
  closed and the \<^verbatim>\<open>for\<close> loop goes on to the next element, whatever \<open>rc\<close> is.
\<close>

fun segments_loop ::
  "nat \<Rightarrow> sys \<Rightarrow> config \<Rightarrow> string \<Rightarrow> int \<Rightarrow> scr_hash option \<Rightarrow> (string \<times> scr_hash) list
    \<Rightarrow> rc \<Rightarrow> uLong \<Rightarrow> event list \<Rightarrow> rc option \<times> uLong \<times> event list" where
  "segments_loop n s cfg file fd_src containers [] rc crc t = (Some rc, crc, t)"
| "segments_loop n s cfg file fd_src containers (elem # rest) rc crc t =
     (case scr_container_get_name_size_offset_length (Some (snd elem)) containers of
        None \<Rightarrow> (Some SCR_FAILURE, crc, t)
      | Some (container_name, container_size, container_offset, segment_length) \<Rightarrow>
          let fd_container = scr_open s t container_name O_RDONLY;
              t1 = t @ [E_scr_open container_name O_RDONLY]
          in
          if fd_container < 0 then (Some SCR_FAILURE, crc, t1)
          else
            let t2 = t1 @ [E_posix_fadvise fd_container];
                t3 = t2 @ [E_lseek fd_container container_offset]
            in
            if \<not> lseek s t2 fd_container container_offset then (Some SCR_FAILURE, crc, t3)
            else
              (case copy_loop n s cfg container_name fd_container file fd_src
                      segment_length rc crc t3 of
                 (None, crc1, t4) \<Rightarrow> (None, crc1, t4)
               | (Some rc1, crc1, t4) \<Rightarrow>
                   let rc2 = (if scr_close s t4 container_name fd_container \<noteq> SCR_SUCCESS
                              then SCR_FAILURE else rc1);
                       t5 = t4 @ [E_scr_close container_name fd_container]
                   in segments_loop n s cfg file fd_src containers rest rc2 crc1 t5))"

text \<open>
  The body of \<^verbatim>\<open>scr_fetch_file_from_containers\<close> from the opening of the destination
  file to its closing: the transfer proper. It returns the return code so far, the CRC
  accumulated and the log. \<^verbatim>\<open>crc32(0L, Z_NULL, 0)\<close> is the CRC of no bytes.
\<close>

definition container_transfer ::
  "nat \<Rightarrow> sys \<Rightarrow> config \<Rightarrow> string \<Rightarrow> scr_hash \<Rightarrow> scr_hash option \<Rightarrow> event list
    \<Rightarrow> rc option \<times> uLong \<times> event list" where
  "container_transfer n s cfg file segments containers t =
     (let buf_size = scr_file_buf_size cfg;
          fd_src = scr_open s t file O_WRONLY_CREAT_TRUNC;
          t1 = t @ [E_scr_open file O_WRONLY_CREAT_TRUNC]
      in
      if fd_src < 0 then (Some SCR_FAILURE, indeterminate_uLong cfg, t1)
      else
        let t2 = t1 @ [E_posix_fadvise fd_src];
            t3 = t2 @ [E_malloc buf_size]
        in
        if \<not> malloc s t2 buf_size
        then (Some SCR_FAILURE, indeterminate_uLong cfg, t3 @ [E_scr_close file fd_src])
        else
          let crc0 = (if scr_crc_on_flush cfg then crc32 s 0 [] else indeterminate_uLong cfg)
          in
          (case segments_loop n s cfg file fd_src containers
                  (elems (scr_hash_sort_int segments)) SCR_SUCCESS crc0 t3 of
             (None, crc, t4) \<Rightarrow> (None, crc, t4)
           | (Some rc1, crc, t4) \<Rightarrow>
               (if scr_close s t4 file fd_src \<noteq> SCR_SUCCESS then Some SCR_FAILURE else Some rc1,
                crc, t4 @ [E_scr_close file fd_src])))"

text \<open>
  \<open>file\<close> is a character array and \<open>meta\<close> a fresh object at the only call, so neither is
  \<^verbatim>\<open>NULL\<close>; \<open>segments\<close> and \<open>containers\<close> may be. After the transfer the CRC is verified
  (lines 309 to 323).
\<close>

definition scr_fetch_file_from_containers ::
  "nat \<Rightarrow> sys \<Rightarrow> config \<Rightarrow> string \<Rightarrow> scr_meta \<Rightarrow> scr_hash option \<Rightarrow> scr_hash option
    \<Rightarrow> event list \<Rightarrow> rc option \<times> event list" where
  "scr_fetch_file_from_containers n s cfg file meta segments containers t =
     (if file = [] then (Some SCR_FAILURE, t)
      else
        (case segments of
           None \<Rightarrow> (Some SCR_FAILURE, t)
         | Some segs \<Rightarrow>
             if containers = None then (Some SCR_FAILURE, t)
             else
               (case container_transfer n s cfg file segs containers t of
                  (None, crc, t1) \<Rightarrow> (None, t1)
                | (Some rc, crc, t1) \<Rightarrow>
                    if rc = SCR_SUCCESS \<and> scr_crc_on_flush cfg then
                      (case scr_meta_get_crc32 meta of
                         Some crc2 \<Rightarrow> (if crc \<noteq> crc2 then Some SCR_FAILURE else Some rc, t1)
                       | None \<Rightarrow> (Some rc, t1))
                    else (Some rc, t1))))"

subsection \<open>scr\_fetch\_file\<close>

text \<open>
  The result is the return code, the content of the buffer \<^verbatim>\<open>newfile\<close> on return, and
  the log. \<open>crc\<close> is read only when \<^verbatim>\<open>scr_crc_on_flush\<close> is set, in which case
  \<^verbatim>\<open>scr_copy_to\<close> has stored it.
\<close>

definition scr_fetch_file ::
  "sys \<Rightarrow> config \<Rightarrow> string \<Rightarrow> scr_meta \<Rightarrow> string \<Rightarrow> string \<Rightarrow> event list
    \<Rightarrow> rc \<times> string \<times> event list" where
  "scr_fetch_file s cfg src_dir meta dst_dir newfile t =
     (case scr_meta_get_filename meta of
        None \<Rightarrow> (SCR_FAILURE, newfile, t)
      | Some meta_filename \<Rightarrow>
          (case scr_build_path s src_dir meta_filename of
             (rcb, filename) \<Rightarrow>
               if rcb \<noteq> SCR_SUCCESS then (SCR_FAILURE, newfile, t)
               else
                 (case scr_copy_to s t filename dst_dir of
                    (rc, newfile1, crc) \<Rightarrow>
                      let t1 = t @ [E_scr_copy_to filename dst_dir] in
                      (case scr_meta_get_crc32 meta of
                         Some meta_crc \<Rightarrow>
                           (if rc = SCR_SUCCESS \<and> scr_crc_on_flush cfg \<and> crc \<noteq> meta_crc
                            then SCR_FAILURE else rc, newfile1, t1)
                       | None \<Rightarrow> (rc, newfile1, t1)))))"

subsection \<open>scr\_fetch\_files\_list\<close>

text \<open>
  The branch \<^verbatim>\<open>if (containers != NULL) ... else ...\<close> of the loop body (lines 420 to
  445): whether the fetch of this entry succeeded (\<open>None\<close>: out of fuel), the content of
  \<^verbatim>\<open>newfile\<close> afterwards, and the log.
\<close>

definition fetch_entry ::
  "nat \<Rightarrow> sys \<Rightarrow> config \<Rightarrow> string \<Rightarrow> scr_hash option \<Rightarrow> scr_hash \<Rightarrow> string \<Rightarrow> scr_meta
    \<Rightarrow> event list \<Rightarrow> bool option \<times> string \<times> event list" where
  "fetch_entry n s cfg dir containers hash newfile meta t =
     (if containers \<noteq> None then
        let segments = scr_hash_get (Some hash) SCR_SUMMARY_6_KEY_SEGMENT in
        (case scr_fetch_file_from_containers n s cfg newfile meta segments containers t of
           (None, t1) \<Rightarrow> (None, newfile, t1)
         | (Some rc, t1) \<Rightarrow> (Some (rc = SCR_SUCCESS), newfile, t1))
      else
        (case scr_hash_util_get_str (Some hash) SCR_KEY_PATH of
           Some from_dir \<Rightarrow>
             (case scr_fetch_file s cfg from_dir meta dir newfile t of
                (rc, newfile1, t1) \<Rightarrow> (Some (rc = SCR_SUCCESS), newfile1, t1))
         | None \<Rightarrow> (Some False, newfile, t)))"

text \<open>The meta data object built for an entry (lines 403 to 418).\<close>

definition entry_meta :: "config \<Rightarrow> scr_hash \<Rightarrow> string \<Rightarrow> nat \<Rightarrow> scr_meta" where
  "entry_meta cfg hash newfile filesize =
     (let meta = scr_meta_new;
          meta = scr_meta_set_filename meta newfile;
          meta = scr_meta_set_filetype meta SCR_META_FILE_FULL;
          meta = scr_meta_set_filesize meta filesize;
          meta = scr_meta_set_complete meta 1;
          meta = scr_meta_set_ranks meta (scr_ranks_world cfg)
      in
      case scr_hash_util_get_crc32 (Some hash) SCR_KEY_CRC of
        Some crc \<Rightarrow> scr_meta_set_crc32 meta crc
      | None \<Rightarrow> meta)"

text \<open>The code after the loop (lines 456 to 460), reached when the loop ends or breaks.\<close>

definition files_list_end :: "config \<Rightarrow> int \<Rightarrow> rc \<Rightarrow> int \<Rightarrow> event list \<Rightarrow> rc option \<times> event list" where
  "files_list_end cfg dset_id rc my_num_files t =
     (Some rc,
      t @ [E_scr_filemap_set_expected_files dset_id (scr_my_rank_world cfg) my_num_files,
           E_scr_filemap_write (scr_map_file cfg)])"

text \<open>
  The loop over the file entries, followed by the code after it. The local \<open>complete\<close>
  (lines 396 to 401) is set and never read, so it is left out. The return code of
  \<^verbatim>\<open>scr_build_path\<close> is ignored by the source.
\<close>

fun files_loop ::
  "nat \<Rightarrow> sys \<Rightarrow> config \<Rightarrow> string \<Rightarrow> int \<Rightarrow> scr_hash option \<Rightarrow> (string \<times> scr_hash) list
    \<Rightarrow> rc \<Rightarrow> int \<Rightarrow> event list \<Rightarrow> rc option \<times> event list" where
  "files_loop n s cfg dir dset_id containers [] rc my_num_files t =
     files_list_end cfg dset_id rc my_num_files t"
| "files_loop n s cfg dir dset_id containers (file_elem # rest) rc my_num_files t =
     (let file = fst file_elem; hash = snd file_elem in
      if scr_hash_elem_get (Some hash) SCR_SUMMARY_6_KEY_NOFETCH \<noteq> None
      then files_loop n s cfg dir dset_id containers rest rc my_num_files t
      else
        let my_num_files1 = my_num_files + 1;
            name = snd (scr_split_path s file);
            newfile = snd (scr_build_path s dir name);
            t1 = t @ [E_scr_filemap_add_file dset_id (scr_my_rank_world cfg) newfile,
                      E_scr_filemap_write (scr_map_file cfg)]
        in
        (case scr_hash_util_get_unsigned_long (Some hash) SCR_KEY_SIZE of
           None \<Rightarrow> files_list_end cfg dset_id SCR_FAILURE my_num_files1 t1
         | Some filesize \<Rightarrow>
             let meta = entry_meta cfg hash newfile filesize in
             (case fetch_entry n s cfg dir containers hash newfile meta t1 of
                (None, newfile1, t2) \<Rightarrow> (None, t2)
              | (Some ok, newfile1, t2) \<Rightarrow>
                  let meta1 = (if ok then meta else scr_meta_set_complete meta 0);
                      rc1 = (if ok then rc else SCR_FAILURE);
                      t3 = t2 @ [E_scr_filemap_set_meta dset_id (scr_my_rank_world cfg)
                                   newfile1 meta1]
                  in files_loop n s cfg dir dset_id containers rest rc1 my_num_files1 t3)))"

text \<open>\<^verbatim>\<open>scr_dataset_get_id\<close> leaves \<open>id\<close> uninitialised when the dataset has no id.\<close>

definition scr_dataset_get_id :: "scr_hash option \<Rightarrow> int option" where
  "scr_dataset_get_id dataset = scr_hash_util_get_int dataset SCR_DATASET_KEY_ID"

definition files_list_id :: "config \<Rightarrow> scr_hash \<Rightarrow> int" where
  "files_list_id cfg file_list =
     (case scr_dataset_get_id (scr_hash_get (Some file_list) SCR_KEY_DATASET) of
        Some i \<Rightarrow> i
      | None \<Rightarrow> indeterminate_int cfg)"

definition scr_fetch_files_list ::
  "nat \<Rightarrow> sys \<Rightarrow> config \<Rightarrow> scr_hash \<Rightarrow> string \<Rightarrow> event list \<Rightarrow> rc option \<times> event list" where
  "scr_fetch_files_list n s cfg file_list dir t =
     (let dset_id = files_list_id cfg file_list;
          containers = scr_hash_get (Some file_list) SCR_SUMMARY_6_KEY_CONTAINER;
          files = scr_hash_get (Some file_list) SCR_KEY_FILE
      in files_loop n s cfg dir dset_id containers
           (case files of None \<Rightarrow> [] | Some fs \<Rightarrow> elems fs) SCR_SUCCESS 0 t)"

subsection \<open>scr\_fetch\_summary\<close>

text \<open>
  Modelled from the spec: \<open>Transport.exchange\<close> routes keyed payloads from rank 0 to
  their integer-addressed destinations. The receiver's hash holds one element per sender,
  keyed by the sender's rank. \<^verbatim>\<open>scr_hash_merge\<close> with a \<^verbatim>\<open>NULL\<close> source changes nothing.
\<close>

definition scr_hash_exchange :: "scr_hash option \<Rightarrow> int \<Rightarrow> scr_hash" where
  "scr_hash_exchange send_hash r =
     (case scr_hash_getf_d send_hash r of
        None \<Rightarrow> Hash []
      | Some payload \<Rightarrow> Hash [(format_d 0, payload)])"

definition scr_hash_merge_from :: "scr_hash \<Rightarrow> scr_hash option \<Rightarrow> scr_hash" where
  "scr_hash_merge_from dst src = (case src of None \<Rightarrow> dst | Some h \<Rightarrow> scr_hash_merge dst h)"

text \<open>
  The last loop of the function (lines 541 to 550): every element of the \<^verbatim>\<open>FILE\<close> hash
  of \<open>file_list\<close> is updated in place.
\<close>

definition add_path_entries :: "string \<Rightarrow> scr_hash \<Rightarrow> scr_hash" where
  "add_path_entries dir file_list =
     (case scr_hash_get (Some file_list) SCR_KEY_FILE of
        None \<Rightarrow> file_list
      | Some files \<Rightarrow>
          Hash (map (\<lambda>e. if fst e = SCR_KEY_FILE
                          then (fst e, Hash (map (\<lambda>f. (fst f, scr_hash_util_set_str (snd f) SCR_KEY_PATH dir))
                                               (elems files)))
                          else e)
                    (elems file_list)))"

text \<open>
  The function as rank \<open>scr_my_rank_world cfg\<close> runs it. The summary is read by rank 0,
  from the answers rank 0 gets after the calls \<open>t0\<close> it has made; \<^verbatim>\<open>MPI_Bcast\<close>,
  \<^verbatim>\<open>scr_hash_bcast\<close> and \<^verbatim>\<open>scr_hash_exchange\<close> hand every rank what rank 0 holds.
\<close>

definition scr_fetch_summary ::
  "sys \<Rightarrow> config \<Rightarrow> string \<Rightarrow> scr_hash \<Rightarrow> event list \<Rightarrow> rc \<times> scr_hash" where
  "scr_fetch_summary s cfg dir file_list t0 =
     (case (if scr_file_is_readable s t0 dir = SCR_SUCCESS then scr_summary_read s t0 dir
            else (SCR_FAILURE, scr_hash_new)) of
        (rc, summary_hash) \<Rightarrow>
          if rc = SCR_SUCCESS then
            let dataset_hash =
                  scr_hash_merge_from scr_hash_new
                    (scr_hash_get (Some summary_hash) SCR_SUMMARY_6_KEY_DATASET);
                file_list1 = scr_hash_set file_list SCR_SUMMARY_6_KEY_DATASET dataset_hash;
                container_hash =
                  scr_hash_merge_from scr_hash_new
                    (scr_hash_get (Some summary_hash) SCR_SUMMARY_6_KEY_CONTAINER);
                file_list2 =
                  (if scr_hash_size (Some container_hash) > 0
                   then scr_hash_set file_list1 SCR_SUMMARY_6_KEY_CONTAINER container_hash
                   else file_list1);
                send_hash =
                  scr_hash_get (scr_hash_get (Some summary_hash) SCR_SUMMARY_6_KEY_RANK2FILE)
                    SCR_SUMMARY_6_KEY_RANK;
                recv_hash = scr_hash_exchange send_hash (scr_my_rank_world cfg);
                file_list3 =
                  foldl (\<lambda>fl elem.
                           scr_hash_set fl SCR_KEY_FILE
                             (scr_hash_merge_from scr_hash_new
                                (scr_hash_get (Some (snd elem)) SCR_SUMMARY_6_KEY_FILE)))
                        file_list2 (elems recv_hash)
            in (rc, add_path_entries dir file_list3)
          else (rc, file_list))"

subsection \<open>scr\_fetch\_data: the flow control window of rank 0\<close>

text \<open>
  The loop of lines 587 to 620 as a machine that takes one step at a time. The request
  array is the list of its active receive requests, each a slot (the index counted from
  \<^verbatim>\<open>&req[w]\<close>) with the rank it waits for; the list has room for any index, also for one
  outside the bounds of the array in C. \<^verbatim>\<open>MPI_Waitany\<close> completes any one active request
  among the \<open>w\<close> slots it is given: which one, and the flag received, is the choice given
  to the step. A choice that names no active request among them is not one that
  \<^verbatim>\<open>MPI_Waitany\<close> can make, and there is no step for it. With no active request among the
  \<open>w\<close> slots \<^verbatim>\<open>MPI_Waitany\<close> returns at once with the index \<^verbatim>\<open>MPI_UNDEFINED\<close>; the source
  goes on with that index: it reads the flag at \<^verbatim>\<open>flags[index + w]\<close> (the flag of the
  choice stands for the value found there) and decrements \<open>outstanding\<close>, and so does the
  machine. \<open>fc_log\<close> records the start signals sent and the replies received.
\<close>

datatype fc_pc = Outer_test | Inner_test | Wait_any | Finished

datatype mpi_event = Go int rc | Done int rc

record fc_state =
  fc_pc :: fc_pc
  fc_i :: int
  fc_outstanding :: int
  fc_index :: int
  fc_success :: rc
  fc_req :: "(int \<times> int) list"
  fc_log :: "mpi_event list"

text \<open>The constant of \<^verbatim>\<open>mpi.h\<close>, with the value it has in MPICH and in Open MPI.\<close>

definition MPI_UNDEFINED :: int where "MPI_UNDEFINED = - 32766"

definition fc_w :: "config \<Rightarrow> int" where
  "fc_w cfg =
     (if scr_fetch_width cfg > scr_ranks_world cfg - 1 then scr_ranks_world cfg - 1
      else scr_fetch_width cfg)"

definition fc_init :: "rc \<Rightarrow> fc_state" where
  "fc_init success =
     \<lparr>fc_pc = Outer_test, fc_i = 1, fc_outstanding = 0, fc_index = 0, fc_success = success,
      fc_req = [], fc_log = []\<rparr>"

text \<open>The active requests that \<^verbatim>\<open>MPI_Waitany(w, &req[w], ...)\<close> looks at.\<close>

definition in_window :: "config \<Rightarrow> (int \<times> int) list \<Rightarrow> (int \<times> int) list" where
  "in_window cfg req = filter (\<lambda>p. 0 \<le> fst p \<and> fst p < fc_w cfg) req"

definition fc_step :: "config \<Rightarrow> int \<times> rc \<Rightarrow> fc_state \<Rightarrow> fc_state option" where
  "fc_step cfg choice st =
     (case fc_pc st of
        Outer_test \<Rightarrow>
          if fc_i st < scr_ranks_world cfg \<or> fc_outstanding st > 0
          then Some (st\<lparr>fc_pc := Inner_test\<rparr>)
          else Some (st\<lparr>fc_pc := Finished\<rparr>)
      | Inner_test \<Rightarrow>
          if fc_i st < scr_ranks_world cfg \<and> fc_outstanding st < fc_w cfg
          then Some (st\<lparr>fc_req := (fc_index st, fc_i st) # filter (\<lambda>p. fst p \<noteq> fc_index st) (fc_req st),
                        fc_log := fc_log st @ [Go (fc_i st) (fc_success st)],
                        fc_outstanding := fc_outstanding st + 1,
                        fc_index := fc_index st + 1,
                        fc_i := fc_i st + 1\<rparr>)
          else Some (st\<lparr>fc_pc := Wait_any\<rparr>)
      | Wait_any \<Rightarrow>
          (case choice of
             (k, flag) \<Rightarrow>
               if in_window cfg (fc_req st) = []
               then Some (st\<lparr>fc_index := MPI_UNDEFINED,
                             fc_success := (if flag \<noteq> SCR_SUCCESS then SCR_FAILURE
                                            else fc_success st),
                             fc_outstanding := fc_outstanding st - 1,
                             fc_pc := Outer_test\<rparr>)
               else
                 (case map_of (in_window cfg (fc_req st)) k of
                    None \<Rightarrow> None
                  | Some r \<Rightarrow>
                      Some (st\<lparr>fc_index := k,
                                fc_req := filter (\<lambda>p. fst p \<noteq> k) (fc_req st),
                                fc_log := fc_log st @ [Done r flag],
                                fc_success := (if flag \<noteq> SCR_SUCCESS then SCR_FAILURE
                                               else fc_success st),
                                fc_outstanding := fc_outstanding st - 1,
                                fc_pc := Outer_test\<rparr>)))
      | Finished \<Rightarrow> None)"

text \<open>A run: one choice per step, until the choices run out or no step is possible.\<close>

fun fc_run :: "config \<Rightarrow> (int \<times> rc) list \<Rightarrow> fc_state \<Rightarrow> fc_state" where
  "fc_run cfg [] st = st"
| "fc_run cfg (c # cs) st =
     (case fc_step cfg c st of None \<Rightarrow> st | Some st' \<Rightarrow> fc_run cfg cs st')"

text \<open>The ranks that were sent a start signal and whose reply has not been received.\<close>

fun in_flight :: "mpi_event list \<Rightarrow> int list \<Rightarrow> int list" where
  "in_flight [] acc = acc"
| "in_flight (Go r flag # evs) acc = in_flight evs (acc @ [r])"
| "in_flight (Done r flag # evs) acc = in_flight evs (remove1 r acc)"

subsection \<open>scr\_fetch\_sync\<close>

text \<open>
  All ranks run \<^verbatim>\<open>scr_fetch_sync\<close> in step: every iteration of its loop passes through the
  collectives of \<^verbatim>\<open>scr_fetch_files\<close>. The state holds, per rank, the log of that rank's
  calls and the value of \<^verbatim>\<open>*fetch_attempted\<close>; \<open>sy_current_checkpoint_id\<close> is rank 0's
  variable (on the other ranks it is never read), and \<open>sy_targets\<close> lists the value of
  rank 0's \<open>target\<close> in each iteration so far. The answers of the outside world go to
  rank 0, after the calls of rank 0. The logs hold the calls that \<^verbatim>\<open>scr_fetch_sync\<close>
  itself makes on the link and on the index; what an attempt does inside
  \<^verbatim>\<open>scr_fetch_files\<close> belongs to the outside world here, and the parts of it are the
  subject of the sections above.
\<close>

definition SCR_CURRENT_LINK :: string where "SCR_CURRENT_LINK = ''scr.current''"

record sync_state =
  sy_logs :: "int \<Rightarrow> event list"
  sy_fetch_attempted :: "int \<Rightarrow> int"
  sy_current_checkpoint_id :: int
  sy_targets :: "string list"

definition scr_current :: "sys \<Rightarrow> config \<Rightarrow> string" where
  "scr_current s cfg = snd (scr_build_path s (scr_par_prefix cfg) SCR_CURRENT_LINK)"

text \<open>Rank 0 determines the directory to fetch from (lines 881 to 903).\<close>

definition select_target :: "sys \<Rightarrow> config \<Rightarrow> bool \<Rightarrow> int \<Rightarrow> event list \<Rightarrow> string \<times> int" where
  "select_target s cfg read_index_file current_checkpoint_id t0 =
     (let target =
            (if scr_file_is_readable s t0 (scr_current s cfg) = SCR_SUCCESS
             then (case readlink s t0 (scr_current s cfg) of Some tg \<Rightarrow> tg | None \<Rightarrow> [])
             else [])
      in
      if read_index_file then
        (if target \<noteq> [] then
           (target, case scr_index_get_id_by_dir s t0 target of Some i \<Rightarrow> i | None \<Rightarrow> - 1)
         else
           (case scr_index_get_most_recent_complete s t0 current_checkpoint_id of
              Some (i, tg) \<Rightarrow> (tg, i)
            | None \<Rightarrow> ([], - 1)))
      else (target, current_checkpoint_id))"

text \<open>What rank 0 logs when it has a target (lines 905 to 916).\<close>

definition attempt_events :: "config \<Rightarrow> bool \<Rightarrow> string \<Rightarrow> int \<Rightarrow> event list" where
  "attempt_events cfg read_index_file target current_checkpoint_id =
     (if target \<noteq> [] \<and> read_index_file \<and> current_checkpoint_id \<noteq> - 1
      then [E_scr_index_mark_fetched current_checkpoint_id target,
            E_scr_index_write (scr_par_prefix cfg)]
      else [])"

definition fetch_dir_of :: "sys \<Rightarrow> config \<Rightarrow> string \<Rightarrow> string" where
  "fetch_dir_of s cfg target =
     (if target \<noteq> [] then snd (scr_build_path s (scr_par_prefix cfg) target) else [])"

text \<open>
  \<^verbatim>\<open>scr_fetch_files\<close> as the loop sees it: the directory of rank 0 is broadcast, an empty
  directory fails at once on every rank (lines 668 to 679), and the rest of the function
  is the collective attempt whose outcome is \<open>fetch_outcome\<close>.
\<close>

definition scr_fetch_files :: "sys \<Rightarrow> event list \<Rightarrow> string \<Rightarrow> rc \<times> int \<times> int" where
  "scr_fetch_files s t0 fetch_dir =
     (if fetch_dir = [] then (SCR_FAILURE, 0, 0) else fetch_outcome s t0 fetch_dir)"

definition on_every_rank :: "event list \<Rightarrow> (int \<Rightarrow> event list) \<Rightarrow> int \<Rightarrow> event list" where
  "on_every_rank evs logs = (\<lambda>r. logs r @ evs)"

definition on_rank_0 :: "event list \<Rightarrow> (int \<Rightarrow> event list) \<Rightarrow> int \<Rightarrow> event list" where
  "on_rank_0 evs logs = (\<lambda>r. if r = 0 then logs r @ evs else logs r)"

text \<open>
  One iteration of the \<^verbatim>\<open>while (continue_fetching)\<close> loop (lines 875 to 948): whether the
  loop goes on, the return code of the attempt, and the new state.
\<close>

definition sync_body :: "sys \<Rightarrow> config \<Rightarrow> bool \<Rightarrow> sync_state \<Rightarrow> bool \<times> rc \<times> sync_state" where
  "sync_body s cfg read_index_file st =
     (case select_target s cfg read_index_file (sy_current_checkpoint_id st) (sy_logs st 0) of
        (target, current_checkpoint_id) \<Rightarrow>
          let fetch_attempted =
                (if target \<noteq> [] then (sy_fetch_attempted st)(0 := 1) else sy_fetch_attempted st);
              logs1 = on_rank_0 (attempt_events cfg read_index_file target current_checkpoint_id)
                        (sy_logs st);
              fetch_dir = fetch_dir_of s cfg target;
              st1 = st\<lparr>sy_fetch_attempted := fetch_attempted,
                       sy_current_checkpoint_id := current_checkpoint_id,
                       sy_targets := sy_targets st @ [target]\<rparr>
          in
          (case scr_fetch_files s (logs1 0) fetch_dir of
             (rc, dset_id, ckpt_id) \<Rightarrow>
               if rc = SCR_SUCCESS then
                 (False, rc,
                  st1\<lparr>sy_logs := on_rank_0 [E_symlink target (scr_current s cfg)] logs1\<rparr>)
               else
                 let logs2 = on_every_rank [E_scr_file_unlink (scr_current s cfg)] logs1 in
                 if fetch_dir \<noteq> [] then
                   (True, rc,
                    st1\<lparr>sy_logs :=
                          on_rank_0
                            (if read_index_file \<and> current_checkpoint_id \<noteq> - 1 \<and> target \<noteq> []
                             then [E_scr_index_mark_failed current_checkpoint_id target,
                                   E_scr_index_write (scr_par_prefix cfg)]
                             else [])
                            logs2\<rparr>)
                 else (False, rc, st1\<lparr>sy_logs := logs2\<rparr>)))"

text \<open>The loop may go on for ever (a link that cannot be removed), so it carries fuel.\<close>

fun sync_loop :: "nat \<Rightarrow> sys \<Rightarrow> config \<Rightarrow> bool \<Rightarrow> sync_state \<Rightarrow> rc option \<times> sync_state" where
  "sync_loop 0 s cfg read_index_file st = (None, st)"
| "sync_loop (Suc n) s cfg read_index_file st =
     (case sync_body s cfg read_index_file st of
        (continue_fetching, rc, st1) \<Rightarrow>
          if continue_fetching then sync_loop n s cfg read_index_file st1 else (Some rc, st1))"

text \<open>
  The whole function, given the value \<open>fa r\<close> that \<^verbatim>\<open>*fetch_attempted\<close> holds on rank \<open>r\<close>
  at the call. The last \<^verbatim>\<open>MPI_Bcast\<close> hands every rank the value of rank 0.
\<close>

definition scr_fetch_sync ::
  "nat \<Rightarrow> sys \<Rightarrow> config \<Rightarrow> (int \<Rightarrow> int) \<Rightarrow> rc option \<times> sync_state" where
  "scr_fetch_sync n s cfg fa =
     (let read_index_file = (scr_index_read s [] (scr_par_prefix cfg) = SCR_SUCCESS);
          st0 = \<lparr>sy_logs = (\<lambda>r. []), sy_fetch_attempted = fa,
                 sy_current_checkpoint_id = - 1, sy_targets = []\<rparr>
      in
      case sync_loop n s cfg read_index_file st0 of
        (None, st) \<Rightarrow> (None, st)
      | (Some rc, st) \<Rightarrow>
          (Some rc, st\<lparr>sy_fetch_attempted := (\<lambda>r. sy_fetch_attempted st 0)\<rparr>))"

section \<open>Notions used in the statements\<close>

text \<open>An entry is fetchable when its record has no \<^verbatim>\<open>NOFETCH\<close> key, whatever the value.\<close>

definition fetchable :: "string \<times> scr_hash \<Rightarrow> bool" where
  "fetchable e = (scr_hash_elem_get (Some (snd e)) SCR_SUMMARY_6_KEY_NOFETCH = None)"

text \<open>A file list without the entries that carry the key.\<close>

definition without_nofetch :: "scr_hash \<Rightarrow> scr_hash" where
  "without_nofetch file_list =
     Hash (map (\<lambda>e. if fst e = SCR_KEY_FILE
                     then (fst e, Hash (filter fetchable (elems (snd e))))
                     else e)
               (elems file_list))"

text \<open>
  The calls that create a file in the cache directory: opening for writing with
  \<^verbatim>\<open>O_CREAT\<close>, and \<^verbatim>\<open>scr_copy_to\<close>.
\<close>

fun is_create :: "event \<Rightarrow> bool" where
  "is_create (E_scr_open f O_WRONLY_CREAT_TRUNC) = True"
| "is_create (E_scr_copy_to src d) = True"
| "is_create e = False"

text \<open>The buffers handed to \<^verbatim>\<open>scr_write_attempt\<close>, in order.\<close>

fun bufs_written :: "event list \<Rightarrow> byte list list" where
  "bufs_written [] = []"
| "bufs_written (E_scr_write_attempt f fd buf # es) = buf # bufs_written es"
| "bufs_written (e # es) = bufs_written es"

text \<open>
  \<open>registered cfg i p log\<close>: the log contains the call that adds \<open>p\<close> to the filemap
  (for dataset \<open>i\<close> and this rank), followed at once by the call that writes the filemap.
\<close>

fun registered :: "config \<Rightarrow> int \<Rightarrow> string \<Rightarrow> event list \<Rightarrow> bool" where
  "registered cfg i p (x # y # zs) =
     ((x = E_scr_filemap_add_file i (scr_my_rank_world cfg) p \<and>
       y = E_scr_filemap_write (scr_map_file cfg))
      \<or> registered cfg i p (y # zs))"
| "registered cfg i p zs = False"

text \<open>
  What is required of a call \<open>e\<close> made after the calls \<open>seen\<close>, and of a whole log, for
  the induction over the file list.
\<close>

definition created_after :: "sys \<Rightarrow> config \<Rightarrow> int \<Rightarrow> string \<Rightarrow> event list \<Rightarrow> event \<Rightarrow> bool" where
  "created_after s cfg i dir seen e =
     ((\<forall>f. e = E_scr_open f O_WRONLY_CREAT_TRUNC \<longrightarrow> registered cfg i f seen) \<and>
      (\<forall>src d. e = E_scr_copy_to src d \<longrightarrow>
         d = dir \<and>
         (\<exists>p from_dir. registered cfg i p seen \<and>
                        scr_build_path s from_dir p = (SCR_SUCCESS, src))))"

fun ok_log :: "sys \<Rightarrow> config \<Rightarrow> int \<Rightarrow> string \<Rightarrow> event list \<Rightarrow> event list \<Rightarrow> bool" where
  "ok_log s cfg i dir seen [] = True"
| "ok_log s cfg i dir seen (e # es) =
     (created_after s cfg i dir seen e \<and> ok_log s cfg i dir (seen @ [e]) es)"

text \<open>What holds in every state of the flow control machine.\<close>

definition fc_inv :: "config \<Rightarrow> fc_state \<Rightarrow> bool" where
  "fc_inv cfg st =
     (0 \<le> fc_outstanding st \<and> fc_outstanding st \<le> fc_w cfg \<and>
      int (length (in_flight (fc_log st) [])) = fc_outstanding st \<and>
      distinct (in_flight (fc_log st) []) \<and>
      (\<forall>r\<in>set (in_flight (fc_log st) []). r < fc_i st) \<and>
      (\<forall>p\<in>set (fc_req st). snd p \<in> set (in_flight (fc_log st) []) \<and>
                             0 \<le> fst p \<and> fst p < fc_w cfg) \<and>
      distinct (map snd (fc_req st)) \<and>
      distinct (map fst (fc_req st)) \<and>
      int (length (fc_req st)) = fc_outstanding st \<and>
      1 \<le> fc_i st \<and>
      (fc_pc st = Wait_any \<longrightarrow> 1 \<le> fc_outstanding st) \<and>
      (fc_pc st = Inner_test \<longrightarrow> fc_i st < scr_ranks_world cfg \<or> 1 \<le> fc_outstanding st) \<and>
      (scr_ranks_world cfg \<le> fc_i st \<or> fc_outstanding st = fc_w cfg \<or>
       (fc_pc st \<noteq> Wait_any \<and> 0 \<le> fc_index st \<and> fc_index st < fc_w cfg \<and>
        fc_index st \<notin> fst ` set (fc_req st) \<and>
        (fc_outstanding st = fc_w cfg - 1 \<or>
         ((\<forall>p\<in>set (fc_req st). fst p < fc_index st) \<and> fc_outstanding st = fc_index st)))))"

section \<open>A small installation\<close>

text \<open>
  Three ranks, a buffer of four bytes, and an outside world in which container \<open>c0\<close>
  holds two bytes only, the copy of \<open>bad.bin\<close> fails, the index file cannot be read and
  every fetch attempt fails. The theorems below are tried on it.
\<close>

definition leaf :: "string \<Rightarrow> scr_hash" where
  "leaf v = Hash [(v, Hash [])]"

definition basename :: "string \<Rightarrow> string" where
  "basename p = rev (takeWhile (\<lambda>c. c \<noteq> CHR ''/'') (rev p))"

definition demo_config :: config where
  "demo_config =
     \<lparr>scr_crc_on_flush = False, scr_file_buf_size = 4, scr_my_rank_world = 0,
      scr_ranks_world = 3, scr_fetch_width = 1, scr_map_file = ''map'',
      scr_par_prefix = ''/pfs'', indeterminate_int = 0, indeterminate_uLong = 0\<rparr>"

definition demo_sys :: sys where
  "demo_sys =
     \<lparr>scr_open = (\<lambda>t name flags. if flags = O_RDONLY then 4 else 3),
      malloc = (\<lambda>t n. True),
      lseek = (\<lambda>t fd pos. True),
      scr_read_attempt = (\<lambda>t name fd count.
         if name = ''c0'' then Read_bytes [1, 2] else Read_bytes [5, 6, 7, 8]),
      scr_write_attempt = (\<lambda>t name fd buf. int (length buf)),
      scr_close = (\<lambda>t name fd. SCR_SUCCESS),
      scr_copy_to = (\<lambda>t src dst.
         if basename src = ''bad.bin'' then (SCR_FAILURE, dst @ ''/'' @ basename src, 0)
         else (SCR_SUCCESS, dst @ ''/'' @ basename src, 9)),
      scr_split_path = (\<lambda>p.
         (rev (drop 1 (dropWhile (\<lambda>c. c \<noteq> CHR ''/'') (rev p))), basename p)),
      scr_build_path = (\<lambda>d n. (SCR_SUCCESS, d @ ''/'' @ n)),
      crc32 = (\<lambda>c bs. c + of_nat (length bs)),
      scr_file_is_readable = (\<lambda>t p.
         if E_scr_file_unlink p \<in> set t then SCR_FAILURE else SCR_SUCCESS),
      scr_summary_read = (\<lambda>t d. (SCR_FAILURE, Hash [])),
      scr_index_read = (\<lambda>t p. SCR_FAILURE),
      readlink = (\<lambda>t p. Some ''ckpt.7''),
      scr_index_get_id_by_dir = (\<lambda>t d. Some 7),
      scr_index_get_most_recent_complete = (\<lambda>t c. None),
      fetch_outcome = (\<lambda>t d. (SCR_FAILURE, 0, 0))\<rparr>"

definition demo_red :: scr_hash where
  "demo_red = Hash [(''SIZE'', leaf ''8''), (''NOFETCH'', leaf ''0''),
                    (''PATH'', leaf ''/pfs/ckpt.7'')]"

definition demo_bad :: scr_hash where
  "demo_bad = Hash [(''SIZE'', leaf ''8''), (''PATH'', leaf ''/pfs/ckpt.7'')]"

definition demo_a :: scr_hash where
  "demo_a = Hash [(''SIZE'', leaf ''16''), (''CRC'', leaf ''9''), (''PATH'', leaf ''/pfs/ckpt.7'')]"

definition demo_files :: scr_hash where
  "demo_files =
     Hash [(''DSET'', Hash [(''ID'', leaf ''7'')]),
           (''FILE'', Hash [(''red.bin'', demo_red), (''bad.bin'', demo_bad), (''a.bin'', demo_a)])]"


definition demo_containers :: scr_hash where
  "demo_containers =
     Hash [(''0'', Hash [(''NAME'', leaf ''c0''), (''SIZE'', leaf ''2'')]),
           (''1'', Hash [(''NAME'', leaf ''c1''), (''SIZE'', leaf ''4'')])]"

definition demo_segments :: scr_hash where
  "demo_segments =
     Hash [(''4'', Hash [(''LENGTH'', leaf ''4''),
                        (''CTR'', Hash [(''ID'', leaf ''1''), (''OFFSET'', leaf ''0'')])]),
           (''0'', Hash [(''LENGTH'', leaf ''4''),
                        (''CTR'', Hash [(''ID'', leaf ''0''), (''OFFSET'', leaf ''0'')])])]"

definition demo_segments_ok :: scr_hash where
  "demo_segments_ok =
     Hash [(''0'', Hash [(''LENGTH'', leaf ''4''),
                        (''CTR'', Hash [(''ID'', leaf ''1''), (''OFFSET'', leaf ''0'')])])]"

definition demo_crc_config :: config where
  "demo_crc_config = demo_config\<lparr>scr_crc_on_flush := True\<rparr>"

definition demo_transfer_log :: "event list" where
  "demo_transfer_log =
     [E_scr_open ''/cache/x.bin'' O_WRONLY_CREAT_TRUNC, E_posix_fadvise 3, E_malloc 4,
      E_scr_open ''c1'' O_RDONLY, E_posix_fadvise 4, E_lseek 4 0,
      E_scr_read_attempt ''c1'' 4 4, E_scr_write_attempt ''/cache/x.bin'' 3 [5, 6, 7, 8],
      E_scr_close ''c1'' 4, E_scr_close ''/cache/x.bin'' 3]"

definition demo_files_log :: "event list" where
  "demo_files_log =
     [E_scr_filemap_add_file 7 0 ''/cache/bad.bin'',
      E_scr_filemap_write ''map'',
      E_scr_copy_to ''/pfs/ckpt.7//cache/bad.bin'' ''/cache'',
      E_scr_filemap_set_meta 7 0 ''/cache/bad.bin''
        \<lparr>meta_FILE = Some ''/cache/bad.bin'', meta_TYPE = Some SCR_META_FILE_FULL,
         meta_SIZE = Some 8, meta_COMPLETE = Some 0, meta_RANKS = Some 3, meta_CRC = None\<rparr>,
      E_scr_filemap_add_file 7 0 ''/cache/a.bin'',
      E_scr_filemap_write ''map'',
      E_scr_copy_to ''/pfs/ckpt.7//cache/a.bin'' ''/cache'',
      E_scr_filemap_set_meta 7 0 ''/cache/a.bin''
        \<lparr>meta_FILE = Some ''/cache/a.bin'', meta_TYPE = Some SCR_META_FILE_FULL,
         meta_SIZE = Some 16, meta_COMPLETE = Some 1, meta_RANKS = Some 3, meta_CRC = Some 9\<rparr>,
      E_scr_filemap_set_expected_files 7 0 2,
      E_scr_filemap_write ''map'']"

definition demo_sys_index :: sys where
  "demo_sys_index = demo_sys\<lparr>scr_index_read := (\<lambda>t p. SCR_SUCCESS)\<rparr>"

definition demo_sys_no_link :: sys where
  "demo_sys_no_link = demo_sys\<lparr>readlink := (\<lambda>t p. None)\<rparr>"

definition demo_sync_state :: sync_state where
  "demo_sync_state =
     \<lparr>sy_logs = (\<lambda>r. []), sy_fetch_attempted = (\<lambda>r. 0),
      sy_current_checkpoint_id = - 1, sy_targets = []\<rparr>"

definition demo_summary :: scr_hash where
  "demo_summary =
     Hash [(''DSET'', Hash [(''ID'', leaf ''7''), (''CKPT'', leaf ''7'')]),
           (''CTR'', demo_containers),
           (''RANK2FILE'',
            Hash [(''RANK'',
                   Hash [(''0'', Hash [(''FILE'',
                            Hash [(''x.bin'', Hash [(''SIZE'', leaf ''8''),
                                                    (''SEG'', demo_segments)])])])])])]"

definition demo_sys_summary :: sys where
  "demo_sys_summary = demo_sys\<lparr>scr_summary_read := (\<lambda>t d. (SCR_SUCCESS, demo_summary))\<rparr>"

section \<open>Properties of the file fetch\<close>

lemma bufs_written_append: "bufs_written (xs @ ys) = bufs_written xs @ bufs_written ys"
  by (induction xs rule: bufs_written.induct) auto

lemma registered_append_right: "registered cfg i p a \<Longrightarrow> registered cfg i p (a @ b)"
  by (induction cfg i p a rule: registered.induct) auto

lemma registered_Cons: "registered cfg i p a \<Longrightarrow> registered cfg i p (x # a)"
  by (cases a) auto

lemma registered_append_left: "registered cfg i p a \<Longrightarrow> registered cfg i p (b @ a)"
  by (induction b) (auto intro: registered_Cons)

lemma registered_block:
  "registered cfg i p (seen @ [E_scr_filemap_add_file i (scr_my_rank_world cfg) p,
                               E_scr_filemap_write (scr_map_file cfg)])"
  by (rule registered_append_left) simp

lemma created_after_not_create: "\<not> is_create e \<Longrightarrow> created_after s cfg i dir seen e"
  by (cases e) (auto simp: created_after_def)

lemma ok_log_append:
  "ok_log s cfg i dir seen (xs @ ys) = (ok_log s cfg i dir seen xs \<and> ok_log s cfg i dir (seen @ xs) ys)"
  by (induction xs arbitrary: seen) auto

lemma ok_log_no_create: "\<forall>e\<in>set evs. \<not> is_create e \<Longrightarrow> ok_log s cfg i dir seen evs"
  by (induction evs arbitrary: seen) (auto simp: created_after_not_create)

lemma copy_loop_log:
  "copy_loop n s cfg cname fdc file fds remaining rc crc t = (r, crc', t') \<Longrightarrow>
   \<exists>evs. t' = t @ evs \<and> (\<forall>e\<in>set evs. \<not> is_create e) \<and>
         (scr_crc_on_flush cfg \<longrightarrow> crc' = foldl (crc32 s) crc (bufs_written evs))"
proof (induction n arbitrary: remaining crc t)
  case 0
  then show ?case by simp
next
  case (Suc n)
  show ?case
  proof (cases "remaining > 0")
    case False
    with Suc.prems show ?thesis by simp
  next
    case True
    define count where "count = (if remaining > scr_file_buf_size cfg then scr_file_buf_size cfg else remaining)"
    obtain nread buf where rd: "read_chunk s t cname fdc count = (nread, buf)"
      by (cases "read_chunk s t cname fdc count")
    define t1 where "t1 = t @ [E_scr_read_attempt cname fdc count]"
    define t2 where "t2 = t1 @ [E_scr_write_attempt file fds buf]"
    define crc1 where "crc1 = (if scr_crc_on_flush cfg then crc32 s crc buf else crc)"
    have unf: "copy_loop (Suc n) s cfg cname fdc file fds remaining rc crc t =
       (if nread > 0 then
          if scr_write_attempt s t1 file fds buf \<noteq> nread then (Some SCR_FAILURE, crc1, t2)
          else if ulong_of_int nread < count then (Some SCR_FAILURE, crc1, t2)
          else if nread < 0 then (Some SCR_FAILURE, crc1, t2)
          else copy_loop n s cfg cname fdc file fds (remaining - nat nread) rc crc1 t2
        else if ulong_of_int nread < count then (Some SCR_FAILURE, crc, t1)
        else if nread < 0 then (Some SCR_FAILURE, crc, t1)
        else copy_loop n s cfg cname fdc file fds remaining rc crc t1)"
      using True rd
      by (simp add: Let_def count_def[symmetric] t1_def[symmetric] t2_def[symmetric] crc1_def[symmetric])
    have stop1: "\<exists>evs. t1 = t @ evs \<and> (\<forall>e\<in>set evs. \<not> is_create e) \<and>
         (scr_crc_on_flush cfg \<longrightarrow> crc = foldl (crc32 s) crc (bufs_written evs))"
      by (simp add: t1_def)
    have stop2: "\<exists>evs. t2 = t @ evs \<and> (\<forall>e\<in>set evs. \<not> is_create e) \<and>
         (scr_crc_on_flush cfg \<longrightarrow> crc1 = foldl (crc32 s) crc (bufs_written evs))"
      by (simp add: t1_def t2_def crc1_def)
    have go1: "\<exists>evs. t' = t @ evs \<and> (\<forall>e\<in>set evs. \<not> is_create e) \<and>
         (scr_crc_on_flush cfg \<longrightarrow> crc' = foldl (crc32 s) crc (bufs_written evs))"
      if h: "copy_loop n s cfg cname fdc file fds remaining rc crc t1 = (r, crc', t')"
    proof -
      from Suc.IH[OF h] obtain evs where e: "t' = t1 @ evs" "\<forall>e\<in>set evs. \<not> is_create e"
        "scr_crc_on_flush cfg \<longrightarrow> crc' = foldl (crc32 s) crc (bufs_written evs)" by blast
      show ?thesis
        by (rule exI[of _ "E_scr_read_attempt cname fdc count # evs"]) (use e in \<open>auto simp: t1_def\<close>)
    qed
    have go2: "\<exists>evs. t' = t @ evs \<and> (\<forall>e\<in>set evs. \<not> is_create e) \<and>
         (scr_crc_on_flush cfg \<longrightarrow> crc' = foldl (crc32 s) crc (bufs_written evs))"
      if h: "copy_loop n s cfg cname fdc file fds (remaining - nat nread) rc crc1 t2 = (r, crc', t')"
    proof -
      from Suc.IH[OF h] obtain evs where e: "t' = t2 @ evs" "\<forall>e\<in>set evs. \<not> is_create e"
        "scr_crc_on_flush cfg \<longrightarrow> crc' = foldl (crc32 s) crc1 (bufs_written evs)" by blast
      show ?thesis
        by (rule exI[of _ "E_scr_read_attempt cname fdc count # E_scr_write_attempt file fds buf # evs"])
           (use e in \<open>auto simp: t1_def t2_def crc1_def\<close>)
    qed
    from Suc.prems[unfolded unf] show ?thesis
      using stop1 stop2 go1 go2 by (auto split: if_splits)
  qed
qed


lemma segments_loop_log:
  "segments_loop n s cfg file fds containers segs rc crc t = (r, crc', t') \<Longrightarrow>
   \<exists>evs. t' = t @ evs \<and> (\<forall>e\<in>set evs. \<not> is_create e) \<and>
         (scr_crc_on_flush cfg \<longrightarrow> crc' = foldl (crc32 s) crc (bufs_written evs))"
proof (induction segs arbitrary: rc crc t)
  case Nil
  then show ?case by simp
next
  case (Cons elem rest)
  show ?case
  proof (cases "scr_container_get_name_size_offset_length (Some (snd elem)) containers")
    case None
    with Cons.prems show ?thesis by simp
  next
    case (Some info)
    obtain cname csize coffset seglen where info: "info = (cname, csize, coffset, seglen)"
      by (cases info) auto
    define fdc where "fdc = scr_open s t cname O_RDONLY"
    define t1 where "t1 = t @ [E_scr_open cname O_RDONLY]"
    define t3 where "t3 = t1 @ [E_posix_fadvise fdc, E_lseek fdc coffset]"
    obtain r1 crc1 t4 where cl: "copy_loop n s cfg cname fdc file fds seglen rc crc t3 = (r1, crc1, t4)"
      by (cases "copy_loop n s cfg cname fdc file fds seglen rc crc t3") auto
    from copy_loop_log[OF cl] obtain evs1 where e1: "t4 = t3 @ evs1" "\<forall>e\<in>set evs1. \<not> is_create e"
      "scr_crc_on_flush cfg \<longrightarrow> crc1 = foldl (crc32 s) crc (bufs_written evs1)" by blast
    have unf: "segments_loop n s cfg file fds containers (elem # rest) rc crc t =
       (if fdc < 0 then (Some SCR_FAILURE, crc, t1)
        else if \<not> lseek s (t1 @ [E_posix_fadvise fdc]) fdc coffset then (Some SCR_FAILURE, crc, t3)
        else (case r1 of
                None \<Rightarrow> (None, crc1, t4)
              | Some rc1 \<Rightarrow>
                  segments_loop n s cfg file fds containers rest
                    (if scr_close s t4 cname fdc \<noteq> SCR_SUCCESS then SCR_FAILURE else rc1)
                    crc1 (t4 @ [E_scr_close cname fdc])))"
      using Some info cl
      by (cases r1) (simp_all add: Let_def fdc_def t1_def t3_def)
    have a: "\<exists>evs. t1 = t @ evs \<and> (\<forall>e\<in>set evs. \<not> is_create e) \<and>
         (scr_crc_on_flush cfg \<longrightarrow> crc = foldl (crc32 s) crc (bufs_written evs))"
      by (simp add: t1_def)
    have b: "\<exists>evs. t3 = t @ evs \<and> (\<forall>e\<in>set evs. \<not> is_create e) \<and>
         (scr_crc_on_flush cfg \<longrightarrow> crc = foldl (crc32 s) crc (bufs_written evs))"
      by (simp add: t1_def t3_def)
    have c: "\<exists>evs. t4 = t @ evs \<and> (\<forall>e\<in>set evs. \<not> is_create e) \<and>
         (scr_crc_on_flush cfg \<longrightarrow> crc1 = foldl (crc32 s) crc (bufs_written evs))"
      by (rule exI[of _ "[E_scr_open cname O_RDONLY, E_posix_fadvise fdc, E_lseek fdc coffset] @ evs1"])
         (use e1 in \<open>auto simp: t1_def t3_def bufs_written_append\<close>)
    have d: "\<exists>evs. t' = t @ evs \<and> (\<forall>e\<in>set evs. \<not> is_create e) \<and>
         (scr_crc_on_flush cfg \<longrightarrow> crc' = foldl (crc32 s) crc (bufs_written evs))"
      if h: "segments_loop n s cfg file fds containers rest rc2 crc1 (t4 @ [E_scr_close cname fdc]) = (r, crc', t')"
      for rc2
    proof -
      from Cons.IH[OF h] obtain evs2 where e2: "t' = (t4 @ [E_scr_close cname fdc]) @ evs2"
        "\<forall>e\<in>set evs2. \<not> is_create e"
        "scr_crc_on_flush cfg \<longrightarrow> crc' = foldl (crc32 s) crc1 (bufs_written evs2)" by blast
      show ?thesis
        by (rule exI[of _ "[E_scr_open cname O_RDONLY, E_posix_fadvise fdc, E_lseek fdc coffset] @ evs1
                            @ [E_scr_close cname fdc] @ evs2"])
           (use e1 e2 in \<open>auto simp: t1_def t3_def bufs_written_append\<close>)
    qed
    from Cons.prems[unfolded unf] show ?thesis
      using a b c d by (auto split: if_splits option.splits)
  qed
qed

lemma container_transfer_log:
  "container_transfer n s cfg file segs containers t = (r, crc, t') \<Longrightarrow>
   \<exists>evs. t' = t @ E_scr_open file O_WRONLY_CREAT_TRUNC # evs \<and> (\<forall>e\<in>set evs. \<not> is_create e) \<and>
         (scr_crc_on_flush cfg \<longrightarrow> r = Some SCR_SUCCESS \<longrightarrow>
            crc = foldl (crc32 s) (crc32 s 0 []) (bufs_written evs))"
proof -
  assume h: "container_transfer n s cfg file segs containers t = (r, crc, t')"
  define fd where "fd = scr_open s t file O_WRONLY_CREAT_TRUNC"
  define t3 where "t3 = t @ [E_scr_open file O_WRONLY_CREAT_TRUNC, E_posix_fadvise fd, E_malloc (scr_file_buf_size cfg)]"
  define crc0 where "crc0 = (if scr_crc_on_flush cfg then crc32 s 0 [] else indeterminate_uLong cfg)"
  obtain r1 crc1 t4 where sl: "segments_loop n s cfg file fd containers (elems (scr_hash_sort_int segs))
      SCR_SUCCESS crc0 t3 = (r1, crc1, t4)"
    by (cases "segments_loop n s cfg file fd containers (elems (scr_hash_sort_int segs)) SCR_SUCCESS crc0 t3") auto
  from segments_loop_log[OF sl] obtain evs1 where e1: "t4 = t3 @ evs1" "\<forall>e\<in>set evs1. \<not> is_create e"
    "scr_crc_on_flush cfg \<longrightarrow> crc1 = foldl (crc32 s) crc0 (bufs_written evs1)" by blast
  have unf: "container_transfer n s cfg file segs containers t =
     (if fd < 0 then (Some SCR_FAILURE, indeterminate_uLong cfg, t @ [E_scr_open file O_WRONLY_CREAT_TRUNC])
      else if \<not> malloc s (t @ [E_scr_open file O_WRONLY_CREAT_TRUNC, E_posix_fadvise fd]) (scr_file_buf_size cfg)
      then (Some SCR_FAILURE, indeterminate_uLong cfg, t3 @ [E_scr_close file fd])
      else (case r1 of
              None \<Rightarrow> (None, crc1, t4)
            | Some rc1 \<Rightarrow> (if scr_close s t4 file fd \<noteq> SCR_SUCCESS then Some SCR_FAILURE else Some rc1,
                           crc1, t4 @ [E_scr_close file fd])))"
    using sl
    by (cases r1) (simp_all add: container_transfer_def Let_def fd_def[symmetric] t3_def crc0_def[symmetric])
  have c: "\<exists>evs. t4 = t @ E_scr_open file O_WRONLY_CREAT_TRUNC # evs \<and> (\<forall>e\<in>set evs. \<not> is_create e)"
    by (rule exI[of _ "[E_posix_fadvise fd, E_malloc (scr_file_buf_size cfg)] @ evs1"])
       (use e1 in \<open>auto simp: t3_def\<close>)
  have d: "\<exists>evs. t4 @ [E_scr_close file fd] = t @ E_scr_open file O_WRONLY_CREAT_TRUNC # evs \<and>
       (\<forall>e\<in>set evs. \<not> is_create e) \<and>
       (scr_crc_on_flush cfg \<longrightarrow> crc1 = foldl (crc32 s) (crc32 s 0 []) (bufs_written evs))"
    by (rule exI[of _ "[E_posix_fadvise fd, E_malloc (scr_file_buf_size cfg)] @ evs1 @ [E_scr_close file fd]"])
       (use e1 in \<open>auto simp: t3_def crc0_def bufs_written_append\<close>)
  from h[unfolded unf] show ?thesis
    using c d by (auto simp: t3_def split: if_splits option.splits)
qed

lemma scr_fetch_file_from_containers_log:
  "scr_fetch_file_from_containers n s cfg file meta segments containers t = (r, t') \<Longrightarrow>
   t' = t \<or> (\<exists>evs. t' = t @ E_scr_open file O_WRONLY_CREAT_TRUNC # evs \<and> (\<forall>e\<in>set evs. \<not> is_create e))"
proof -
  assume h: "scr_fetch_file_from_containers n s cfg file meta segments containers t = (r, t')"
  show ?thesis
  proof (cases segments)
    case None
    with h show ?thesis
      by (simp add: scr_fetch_file_from_containers_def split: if_splits)
  next
    case (Some segs)
    show ?thesis
    proof (cases "file = [] \<or> containers = None")
      case True
      with h Some show ?thesis
        by (auto simp: scr_fetch_file_from_containers_def split: if_splits)
    next
      case False
      obtain r1 crc t1 where ct: "container_transfer n s cfg file segs containers t = (r1, crc, t1)"
        by (cases "container_transfer n s cfg file segs containers t") auto
      from h False Some ct have "t' = t1"
        by (cases r1) (auto simp: scr_fetch_file_from_containers_def split: option.splits if_splits)
      with container_transfer_log[OF ct] show ?thesis by blast
    qed
  qed
qed

lemma scr_fetch_file_log:
  "scr_fetch_file s cfg src_dir meta dst_dir newfile t = (r, nf, t') \<Longrightarrow>
   t' = t \<or> (\<exists>mf filename. scr_meta_get_filename meta = Some mf \<and>
               scr_build_path s src_dir mf = (SCR_SUCCESS, filename) \<and>
               t' = t @ [E_scr_copy_to filename dst_dir])"
  by (auto simp: scr_fetch_file_def Let_def split: option.splits prod.splits if_splits)


lemma entry_meta_filename: "scr_meta_get_filename (entry_meta cfg hash newfile filesize) = Some newfile"
  by (simp add: entry_meta_def scr_meta_get_filename_def scr_meta_new_def scr_meta_set_filename_def
      scr_meta_set_filetype_def scr_meta_set_filesize_def scr_meta_set_complete_def
      scr_meta_set_ranks_def scr_meta_set_crc32_def Let_def split: option.splits)

lemma fetch_entry_log:
  assumes "scr_meta_get_filename meta = Some newfile"
      and "fetch_entry n s cfg dir containers hash newfile meta t = (r, nf, t')"
  shows "\<exists>evs. t' = t @ evs \<and>
           (evs = [] \<or>
            (\<exists>rest. evs = E_scr_open newfile O_WRONLY_CREAT_TRUNC # rest \<and> (\<forall>e\<in>set rest. \<not> is_create e)) \<or>
            (\<exists>src from_dir. evs = [E_scr_copy_to src dir] \<and>
               scr_build_path s from_dir newfile = (SCR_SUCCESS, src)))"
proof (cases "containers \<noteq> None")
  case True
  obtain r1 t1 where fc: "scr_fetch_file_from_containers n s cfg newfile meta
      (scr_hash_get (Some hash) SCR_SUMMARY_6_KEY_SEGMENT) containers t = (r1, t1)"
    by (cases "scr_fetch_file_from_containers n s cfg newfile meta
      (scr_hash_get (Some hash) SCR_SUMMARY_6_KEY_SEGMENT) containers t") auto
  from assms(2) True fc have "t' = t1"
    by (cases r1) (auto simp: fetch_entry_def Let_def)
  with scr_fetch_file_from_containers_log[OF fc] show ?thesis by auto
next
  case False
  show ?thesis
  proof (cases "scr_hash_util_get_str (Some hash) SCR_KEY_PATH")
    case None
    with assms(2) False show ?thesis by (simp add: fetch_entry_def)
  next
    case (Some from_dir)
    obtain r1 nf1 t1 where ff: "scr_fetch_file s cfg from_dir meta dir newfile t = (r1, nf1, t1)"
      by (cases "scr_fetch_file s cfg from_dir meta dir newfile t") auto
    from assms(2) False Some ff have "t' = t1" by (simp add: fetch_entry_def)
    with scr_fetch_file_log[OF ff] assms(1) show ?thesis by auto
  qed
qed

lemma ok_log_fetch_entry:
  assumes "registered cfg i newfile seen"
      and "evs = [] \<or>
            (\<exists>rest. evs = E_scr_open newfile O_WRONLY_CREAT_TRUNC # rest \<and> (\<forall>e\<in>set rest. \<not> is_create e)) \<or>
            (\<exists>src from_dir. evs = [E_scr_copy_to src dir] \<and>
               scr_build_path s from_dir newfile = (SCR_SUCCESS, src))"
  shows "ok_log s cfg i dir seen evs"
  using assms by (elim disjE exE conjE; simp add: created_after_def ok_log_no_create; blast)

lemma files_list_end_log:
  "files_list_end cfg i rc k t = (r, t') \<Longrightarrow>
   r = Some rc \<and> t' = t @ [E_scr_filemap_set_expected_files i (scr_my_rank_world cfg) k,
                          E_scr_filemap_write (scr_map_file cfg)]"
  by (auto simp: files_list_end_def)

lemma files_loop_skip:
  "scr_hash_elem_get (Some hash) SCR_SUMMARY_6_KEY_NOFETCH = Some x \<Longrightarrow>
   files_loop n s cfg dir i cs ((file, hash) # rest) rc k t = files_loop n s cfg dir i cs rest rc k t"
  by (simp add: Let_def)

lemma files_loop_no_size:
  "scr_hash_elem_get (Some hash) SCR_SUMMARY_6_KEY_NOFETCH = None \<Longrightarrow>
   scr_hash_util_get_unsigned_long (Some hash) SCR_KEY_SIZE = None \<Longrightarrow>
   files_loop n s cfg dir i cs ((file, hash) # rest) rc k t =
     files_list_end cfg i SCR_FAILURE (k + 1)
       (t @ [E_scr_filemap_add_file i (scr_my_rank_world cfg)
               (snd (scr_build_path s dir (snd (scr_split_path s file)))),
             E_scr_filemap_write (scr_map_file cfg)])"
  by (simp add: Let_def)

lemma files_loop_no_fuel:
  "scr_hash_elem_get (Some hash) SCR_SUMMARY_6_KEY_NOFETCH = None \<Longrightarrow>
   scr_hash_util_get_unsigned_long (Some hash) SCR_KEY_SIZE = Some filesize \<Longrightarrow>
   newfile = snd (scr_build_path s dir (snd (scr_split_path s file))) \<Longrightarrow>
   fetch_entry n s cfg dir cs hash newfile (entry_meta cfg hash newfile filesize)
     (t @ [E_scr_filemap_add_file i (scr_my_rank_world cfg) newfile,
           E_scr_filemap_write (scr_map_file cfg)]) = (None, nf, t2) \<Longrightarrow>
   files_loop n s cfg dir i cs ((file, hash) # rest) rc k t = (None, t2)"
  by (simp add: Let_def)

lemma files_loop_fetched:
  "scr_hash_elem_get (Some hash) SCR_SUMMARY_6_KEY_NOFETCH = None \<Longrightarrow>
   scr_hash_util_get_unsigned_long (Some hash) SCR_KEY_SIZE = Some filesize \<Longrightarrow>
   newfile = snd (scr_build_path s dir (snd (scr_split_path s file))) \<Longrightarrow>
   meta = entry_meta cfg hash newfile filesize \<Longrightarrow>
   fetch_entry n s cfg dir cs hash newfile meta
     (t @ [E_scr_filemap_add_file i (scr_my_rank_world cfg) newfile,
           E_scr_filemap_write (scr_map_file cfg)]) = (Some ok, nf, t2) \<Longrightarrow>
   files_loop n s cfg dir i cs ((file, hash) # rest) rc k t =
     files_loop n s cfg dir i cs rest (if ok then rc else SCR_FAILURE) (k + 1)
       (t2 @ [E_scr_filemap_set_meta i (scr_my_rank_world cfg) nf
                (if ok then meta else scr_meta_set_complete meta 0)])"
  by (simp add: Let_def)

lemma files_loop_log:
  "files_loop n s cfg dir i cs files rc k t = (r, t') \<Longrightarrow>
   \<exists>evs. t' = t @ evs \<and> (\<forall>seen. ok_log s cfg i dir seen evs)"
proof (induction files arbitrary: rc k t)
  case Nil
  then show ?case
    by (auto simp: files_list_end_def created_after_def)
next
  case (Cons e files)
  obtain fkey hash where e: "e = (fkey, hash)" by (cases e)
  show ?case
  proof (cases "scr_hash_elem_get (Some hash) SCR_SUMMARY_6_KEY_NOFETCH")
    case (Some x)
    from Cons.prems have "files_loop n s cfg dir i cs files rc k t = (r, t')"
      unfolding e files_loop_skip[OF Some] .
    from Cons.IH[OF this] show ?thesis .
  next
    case None
    define newfile where "newfile = snd (scr_build_path s dir (snd (scr_split_path s fkey)))"
    define reg where "reg = [E_scr_filemap_add_file i (scr_my_rank_world cfg) newfile,
                      E_scr_filemap_write (scr_map_file cfg)]"
    have okreg: "ok_log s cfg i dir seen reg" for seen
      by (simp add: reg_def created_after_def)
    show ?thesis
    proof (cases "scr_hash_util_get_unsigned_long (Some hash) SCR_KEY_SIZE")
      case nosize: None
      from Cons.prems
      have "t' = t @ reg @ [E_scr_filemap_set_expected_files i (scr_my_rank_world cfg) (k + 1),
                          E_scr_filemap_write (scr_map_file cfg)]"
        unfolding e files_loop_no_size[OF None nosize]
        by (auto simp: files_list_end_def newfile_def reg_def)
      then show ?thesis
        by (auto simp: reg_def created_after_def)
    next
      case (Some filesize)
      define meta where "meta = entry_meta cfg hash newfile filesize"
      obtain ok nf t2 where fe: "fetch_entry n s cfg dir cs hash newfile meta (t @ reg) = (ok, nf, t2)"
        by (cases "fetch_entry n s cfg dir cs hash newfile meta (t @ reg)") auto
      have mf: "scr_meta_get_filename meta = Some newfile"
        by (simp add: meta_def entry_meta_filename)
      from fetch_entry_log[OF mf fe] obtain fevs where fevs: "t2 = (t @ reg) @ fevs"
        "fevs = [] \<or>
            (\<exists>rest. fevs = E_scr_open newfile O_WRONLY_CREAT_TRUNC # rest \<and> (\<forall>e\<in>set rest. \<not> is_create e)) \<or>
            (\<exists>src from_dir. fevs = [E_scr_copy_to src dir] \<and>
               scr_build_path s from_dir newfile = (SCR_SUCCESS, src))"
        by blast
      have okf: "ok_log s cfg i dir (seen @ reg) fevs" for seen
        by (rule ok_log_fetch_entry[OF _ fevs(2)]) (simp add: reg_def registered_block)
      show ?thesis
      proof (cases ok)
        case nofuel: None
        have "files_loop n s cfg dir i cs ((fkey, hash) # files) rc k t = (None, t2)"
          by (rule files_loop_no_fuel[OF None Some newfile_def])
             (use fe nofuel in \<open>simp add: meta_def reg_def\<close>)
        with Cons.prems e have "t' = t2" by simp
        then have "t' = t @ reg @ fevs" using fevs by simp
        moreover have "ok_log s cfg i dir seen (reg @ fevs)" for seen
          using okreg okf by (simp add: ok_log_append)
        ultimately show ?thesis by blast
      next
        case ok: (Some b)
        define sm where "sm = E_scr_filemap_set_meta i (scr_my_rank_world cfg) nf
                                 (if b then meta else scr_meta_set_complete meta 0)"
        have "files_loop n s cfg dir i cs ((fkey, hash) # files) rc k t =
              files_loop n s cfg dir i cs files (if b then rc else SCR_FAILURE) (k + 1) (t2 @ [sm])"
          unfolding sm_def
          by (rule files_loop_fetched[OF None Some newfile_def meta_def])
             (use fe ok in \<open>simp add: reg_def\<close>)
        with Cons.prems e
        have "files_loop n s cfg dir i cs files (if b then rc else SCR_FAILURE) (k + 1) (t2 @ [sm]) = (r, t')"
          by simp
        from Cons.IH[OF this] obtain evs where evs: "t' = (t2 @ [sm]) @ evs"
          "\<forall>seen. ok_log s cfg i dir seen evs" by blast
        have "t' = t @ (reg @ fevs @ [sm] @ evs)" using evs fevs by simp
        moreover have "ok_log s cfg i dir seen (reg @ fevs @ [sm] @ evs)" for seen
          using okreg okf evs(2) by (simp add: ok_log_append sm_def created_after_def)
        ultimately show ?thesis by blast
      qed
    qed
  qed
qed

lemma ok_log_split:
  "ok_log s cfg i dir seen (a @ e # b) \<Longrightarrow> created_after s cfg i dir (seen @ a) e"
  by (simp add: ok_log_append)


lemma files_loop_filter:
  "files_loop n s cfg dir i cs (filter fetchable files) rc k t = files_loop n s cfg dir i cs files rc k t"
proof (induction files arbitrary: rc k t)
  case Nil
  then show ?case by simp
next
  case (Cons e files)
  show ?case
  proof (cases "fetchable e")
    case True
    then have eq: "scr_hash_elem_get (Some (snd e)) SCR_SUMMARY_6_KEY_NOFETCH = None"
      by (simp add: fetchable_def)
    show ?thesis
      using True by (simp add: eq Cons.IH Let_def split: option.splits prod.splits)
  next
    case False
    then obtain x where ne: "scr_hash_elem_get (Some (snd e)) SCR_SUMMARY_6_KEY_NOFETCH = Some x"
      by (auto simp: fetchable_def)
    show ?thesis
      using False by (simp add: ne Cons.IH Let_def)
  qed
qed

lemma find_map_keep_fst:
  assumes "\<And>e. fst (f e) = fst e"
  shows "find (\<lambda>e. fst e = k) (map f xs) = map_option f (find (\<lambda>e. fst e = k) xs)"
  using assms by (induction xs) auto

lemma scr_hash_get_without_nofetch:
  "scr_hash_get (Some (without_nofetch fl)) k =
     (if k = SCR_KEY_FILE
      then map_option (\<lambda>h. Hash (filter fetchable (elems h))) (scr_hash_get (Some fl) k)
      else scr_hash_get (Some fl) k)"
  by (simp add: scr_hash_get_def scr_hash_elem_get_def without_nofetch_def find_map_keep_fst
      option.map_comp comp_def)
   (cases "find (\<lambda>e. fst e = k) (elems fl)"; auto dest: find_Some_iff[THEN iffD1])




text \<open>
  The fuel is a device for the case of a zero buffer size only: with a positive buffer
  size the copy loop ends within \<open>remaining\<close> rounds. And a return code that is
  \<^verbatim>\<open>SCR_FAILURE\<close> stays so through the remaining segments.
\<close>

lemma read_chunk_le: "read_chunk s t name fd count = (nread, buf) \<Longrightarrow> nread \<le> int count"
  by (auto simp: read_chunk_def split: read_result.splits)

lemma copy_loop_returns:
  "0 < scr_file_buf_size cfg \<Longrightarrow> remaining < n \<Longrightarrow>
   fst (copy_loop n s cfg cname fdc file fds remaining rc crc t) \<noteq> None"
proof (induction n arbitrary: remaining crc t)
  case 0
  then show ?case by simp
next
  case (Suc n)
  show ?case
  proof (cases "remaining > 0")
    case False
    then show ?thesis by simp
  next
    case True
    define count where "count = (if remaining > scr_file_buf_size cfg then scr_file_buf_size cfg else remaining)"
    from True Suc.prems(1) have cpos: "0 < count" by (simp add: count_def)
    obtain nread buf where rd: "read_chunk s t cname fdc count = (nread, buf)"
      by (cases "read_chunk s t cname fdc count")
    show ?thesis
    proof (cases "nread > 0")
      case pos: True
      with Suc.prems(2) True have "remaining - nat nread < n" by linarith
      from Suc.IH[OF Suc.prems(1) this] pos True rd show ?thesis
        by (simp add: Let_def count_def[symmetric])
    next
      case npos: False
      have "ulong_of_int nread < count \<or> nread < 0"
      proof (cases "nread < 0")
        case True
        then show ?thesis by simp
      next
        case False
        with npos have "nread = 0" by simp
        with cpos show ?thesis by (simp add: ulong_of_int_def)
      qed
      with npos True rd show ?thesis
        by (auto simp: Let_def count_def[symmetric])
    qed
  qed
qed

lemma segments_loop_failure_sticks:
  "segments_loop n s cfg file fds containers segs SCR_FAILURE crc t = (r, crc', t') \<Longrightarrow>
   r \<noteq> Some SCR_SUCCESS"
proof (induction segs arbitrary: crc t)
  case Nil
  then show ?case by auto
next
  case (Cons elem rest)
  show ?case
  proof (cases "scr_container_get_name_size_offset_length (Some (snd elem)) containers")
    case None
    with Cons.prems show ?thesis by auto
  next
    case (Some info)
    obtain cname csize coffset seglen where info: "info = (cname, csize, coffset, seglen)"
      by (cases info) auto
    define fdc where "fdc = scr_open s t cname O_RDONLY"
    define t3 where "t3 = t @ [E_scr_open cname O_RDONLY, E_posix_fadvise fdc, E_lseek fdc coffset]"
    obtain r1 crc1 t4 where cl: "copy_loop n s cfg cname fdc file fds seglen SCR_FAILURE crc t3 = (r1, crc1, t4)"
      by (cases "copy_loop n s cfg cname fdc file fds seglen SCR_FAILURE crc t3") auto
    have keep: "r1 \<noteq> Some SCR_SUCCESS"
      using cl
    proof (induction n arbitrary: seglen crc t3)
      case 0
      then show ?case by simp
    next
      case (Suc n)
      then show ?case
        by (auto simp: Let_def split: if_splits prod.splits)
    qed
    show ?thesis
    proof (cases r1)
      case None
      with Cons.prems Some info cl show ?thesis
        by (auto simp: Let_def fdc_def t3_def split: if_splits)
    next
      case (Some rc1)
      with keep have rc1: "rc1 = SCR_FAILURE" by (cases rc1) auto
      from Cons.prems \<open>scr_container_get_name_size_offset_length (Some (snd elem)) containers = Some info\<close>
        info cl Some rc1
      have "r = Some SCR_FAILURE \<or>
            segments_loop n s cfg file fds containers rest SCR_FAILURE crc1 (t4 @ [E_scr_close cname fdc]) = (r, crc', t')"
        by (auto simp: Let_def fdc_def t3_def split: if_splits)
      with Cons.IH show ?thesis by auto
    qed
  qed
qed

text \<open>
  Claim C1 (the code differs). The claim says that after a failed transfer of one
  segment no byte of a later segment reaches the destination. In the source the
  \<^verbatim>\<open>break\<close> after a short read, a read error or a write error leaves the inner
  \<^verbatim>\<open>while\<close> loop only; the \<^verbatim>\<open>for\<close> loop closes the container and goes on. Here the
  segment at offset 0 lies in container \<open>c0\<close>, which has two of its four bytes; the
  bytes of the segment at offset 4 are written all the same, and the call returns
  failure.
\<close>

theorem C1_later_segment_copied_after_failure:
  "scr_fetch_file_from_containers 8 demo_sys demo_config ''/cache/x.bin'' scr_meta_new
     (Some demo_segments) (Some demo_containers) [] =
     (Some SCR_FAILURE,
      [E_scr_open ''/cache/x.bin'' O_WRONLY_CREAT_TRUNC, E_posix_fadvise 3, E_malloc 4,
       E_scr_open ''c0'' O_RDONLY, E_posix_fadvise 4, E_lseek 4 0,
       E_scr_read_attempt ''c0'' 4 4, E_scr_write_attempt ''/cache/x.bin'' 3 [1, 2],
       E_scr_close ''c0'' 4,
       E_scr_open ''c1'' O_RDONLY, E_posix_fadvise 4, E_lseek 4 0,
       E_scr_read_attempt ''c1'' 4 4, E_scr_write_attempt ''/cache/x.bin'' 3 [5, 6, 7, 8],
       E_scr_close ''c1'' 4, E_scr_close ''/cache/x.bin'' 3])"
  by code_simp






lemma demo_files_run:
  "scr_fetch_files_list 8 demo_sys demo_config demo_files ''/cache'' [] =
     (Some SCR_FAILURE, demo_files_log)"
  by code_simp

text \<open>
  Claim C3. In every run of \<open>scr_fetch_files_list\<close>, finished or not, a call that creates
  a file in the cache comes after the file's registration: when the log made by the run
  is \<open>a\<close>, then the call \<open>e\<close>, then \<open>b\<close>, and \<open>e\<close> opens \<open>f\<close> for writing (the container
  path), then \<open>a\<close> contains the call adding \<open>f\<close> to the filemap followed by the call
  writing the filemap; and when \<open>e\<close> is a \<open>scr_copy_to\<close> (the plain path), it copies into
  \<open>dir\<close> from a source path built from a path \<open>p\<close> that \<open>a\<close> adds to the filemap and then
  writes.
\<close>

theorem C3_filemap_written_before_file_created:
  assumes "scr_fetch_files_list n s cfg file_list dir t = (r, t @ a @ e # b)"
  shows "(\<forall>f. e = E_scr_open f O_WRONLY_CREAT_TRUNC \<longrightarrow>
            registered cfg (files_list_id cfg file_list) f a) \<and>
         (\<forall>src d. e = E_scr_copy_to src d \<longrightarrow>
            d = dir \<and>
            (\<exists>p from_dir. registered cfg (files_list_id cfg file_list) p a \<and>
                           scr_build_path s from_dir p = (SCR_SUCCESS, src)))"
proof -
  from assms obtain evs where evs: "t @ a @ e # b = t @ evs"
    "\<forall>seen. ok_log s cfg (files_list_id cfg file_list) dir seen evs"
    unfolding scr_fetch_files_list_def Let_def by (blast dest: files_loop_log)
  then have "ok_log s cfg (files_list_id cfg file_list) dir [] (a @ e # b)" by simp
  from ok_log_split[OF this] show ?thesis
    by (simp add: created_after_def)
qed

theorem C3_witness:
  "scr_fetch_files_list 8 demo_sys demo_config demo_files ''/cache'' [] =
     (Some SCR_FAILURE,
      [] @ take 2 demo_files_log @ E_scr_copy_to ''/pfs/ckpt.7//cache/bad.bin'' ''/cache''
         # drop 3 demo_files_log) \<and>
   (\<exists>p from_dir. registered demo_config (files_list_id demo_config demo_files) p
                    (take 2 demo_files_log) \<and>
                  scr_build_path demo_sys from_dir p =
                    (SCR_SUCCESS, ''/pfs/ckpt.7//cache/bad.bin''))"
proof -
  have h: "scr_fetch_files_list 8 demo_sys demo_config demo_files ''/cache'' [] =
     (Some SCR_FAILURE,
      [] @ take 2 demo_files_log @ E_scr_copy_to ''/pfs/ckpt.7//cache/bad.bin'' ''/cache''
         # drop 3 demo_files_log)"
    by (simp add: demo_files_run) (simp add: demo_files_log_def)
  from C3_filemap_written_before_file_created [OF h] h show ?thesis by simp
qed

text \<open>
  Claim C5. With \<^verbatim>\<open>scr_crc_on_flush\<close> set and a CRC recorded in the meta data: when
  \<open>scr_copy_to\<close> succeeds, \<open>scr_fetch_file\<close> fails exactly when the CRC computed by the
  copy differs from the recorded one; and when the transfer from the containers
  succeeds, \<open>scr_fetch_file_from_containers\<close> fails exactly when the CRC accumulated over
  the buffers written, in order, differs from the recorded one.
\<close>

theorem C5_crc_checked_after_transfer:
  assumes "scr_crc_on_flush cfg"
      and "scr_meta_get_crc32 meta = Some meta_crc"
  shows "(\<forall>mf filename nf crc.
            scr_meta_get_filename meta = Some mf \<and>
            scr_build_path s src_dir mf = (SCR_SUCCESS, filename) \<and>
            scr_copy_to s t filename dst_dir = (SCR_SUCCESS, nf, crc) \<longrightarrow>
            scr_fetch_file s cfg src_dir meta dst_dir newfile t =
              (if crc \<noteq> meta_crc then SCR_FAILURE else SCR_SUCCESS, nf,
               t @ [E_scr_copy_to filename dst_dir])) \<and>
         (\<forall>segs crc t'.
            fname \<noteq> [] \<and> containers \<noteq> None \<and>
            container_transfer n s cfg fname segs containers t = (Some SCR_SUCCESS, crc, t') \<longrightarrow>
            scr_fetch_file_from_containers n s cfg fname meta (Some segs) containers t =
              (Some (if crc \<noteq> meta_crc then SCR_FAILURE else SCR_SUCCESS), t') \<and>
            crc = foldl (crc32 s) (crc32 s 0 []) (bufs_written (drop (length t) t')))"
proof -
  have plain: "scr_fetch_file s cfg src_dir meta dst_dir newfile t =
              (if crc \<noteq> meta_crc then SCR_FAILURE else SCR_SUCCESS, nf,
               t @ [E_scr_copy_to filename dst_dir])"
    if "scr_meta_get_filename meta = Some mf"
       "scr_build_path s src_dir mf = (SCR_SUCCESS, filename)"
       "scr_copy_to s t filename dst_dir = (SCR_SUCCESS, nf, crc)"
    for mf filename nf crc
    using that assms by (simp add: scr_fetch_file_def)
  have cont: "scr_fetch_file_from_containers n s cfg fname meta (Some segs) containers t =
              (Some (if crc \<noteq> meta_crc then SCR_FAILURE else SCR_SUCCESS), t') \<and>
            crc = foldl (crc32 s) (crc32 s 0 []) (bufs_written (drop (length t) t'))"
    if "fname \<noteq> []" "containers \<noteq> None"
       "container_transfer n s cfg fname segs containers t = (Some SCR_SUCCESS, crc, t')"
    for segs crc t'
  proof -
    from that(2) obtain c where c: "containers = Some c" by auto
    from container_transfer_log[OF that(3)] assms(1)
    obtain evs where "t' = t @ E_scr_open fname O_WRONLY_CREAT_TRUNC # evs"
      "crc = foldl (crc32 s) (crc32 s 0 []) (bufs_written evs)" by blast
    then have "crc = foldl (crc32 s) (crc32 s 0 []) (bufs_written (drop (length t) t'))" by simp
    moreover have "scr_fetch_file_from_containers n s cfg fname meta (Some segs) containers t =
              (Some (if crc \<noteq> meta_crc then SCR_FAILURE else SCR_SUCCESS), t')"
      using that(1,3) assms by (simp add: scr_fetch_file_from_containers_def c)
    ultimately show ?thesis by blast
  qed
  from plain cont show ?thesis by blast
qed

theorem C5_witness:
  "scr_crc_on_flush demo_crc_config \<and>
   scr_meta_get_crc32 (entry_meta demo_crc_config demo_a ''/cache/a.bin'' 16) = Some 9 \<and>
   scr_fetch_file demo_sys demo_crc_config ''/pfs/ckpt.7''
       (entry_meta demo_crc_config demo_a ''/cache/a.bin'' 16) ''/cache'' ''/cache/a.bin'' [] =
     (SCR_SUCCESS, ''/cache/a.bin'', [E_scr_copy_to ''/pfs/ckpt.7//cache/a.bin'' ''/cache'']) \<and>
   container_transfer 8 demo_sys demo_crc_config ''/cache/x.bin'' demo_segments_ok
       (Some demo_containers) [] = (Some SCR_SUCCESS, 4, demo_transfer_log) \<and>
   scr_fetch_file_from_containers 8 demo_sys demo_crc_config ''/cache/x.bin''
       (entry_meta demo_crc_config demo_a ''/cache/a.bin'' 16) (Some demo_segments_ok)
       (Some demo_containers) [] = (Some SCR_FAILURE, demo_transfer_log)"
proof -
  have h1: "scr_crc_on_flush demo_crc_config" by code_simp
  have h2: "scr_meta_get_crc32 (entry_meta demo_crc_config demo_a ''/cache/a.bin'' 16) = Some 9"
    by code_simp
  have a1: "scr_meta_get_filename (entry_meta demo_crc_config demo_a ''/cache/a.bin'' 16) = Some ''/cache/a.bin''"
    by (rule entry_meta_filename)
  have a2: "scr_build_path demo_sys ''/pfs/ckpt.7'' ''/cache/a.bin'' = (SCR_SUCCESS, ''/pfs/ckpt.7//cache/a.bin'')"
    by code_simp
  have a3: "scr_copy_to demo_sys [] ''/pfs/ckpt.7//cache/a.bin'' ''/cache'' = (SCR_SUCCESS, ''/cache/a.bin'', 9)"
    by code_simp
  have b1: "container_transfer 8 demo_sys demo_crc_config ''/cache/x.bin'' demo_segments_ok
       (Some demo_containers) [] = (Some SCR_SUCCESS, 4, demo_transfer_log)"
    by code_simp
  note inst = C5_crc_checked_after_transfer [OF h1 h2, where s = demo_sys
      and src_dir = "''/pfs/ckpt.7''" and t = "[]" and dst_dir = "''/cache''"
      and newfile = "''/cache/a.bin''" and fname = "''/cache/x.bin''"
      and containers = "Some demo_containers" and n = 8]
  from inst a1 a2 a3
  have p: "scr_fetch_file demo_sys demo_crc_config ''/pfs/ckpt.7''
       (entry_meta demo_crc_config demo_a ''/cache/a.bin'' 16) ''/cache'' ''/cache/a.bin'' [] =
     (SCR_SUCCESS, ''/cache/a.bin'', [E_scr_copy_to ''/pfs/ckpt.7//cache/a.bin'' ''/cache''])"
    by simp
  from inst b1
  have c: "scr_fetch_file_from_containers 8 demo_sys demo_crc_config ''/cache/x.bin''
       (entry_meta demo_crc_config demo_a ''/cache/a.bin'' 16) (Some demo_segments_ok)
       (Some demo_containers) [] = (Some SCR_FAILURE, demo_transfer_log)"
    by simp
  from h1 h2 p b1 c show ?thesis by blast
qed

text \<open>
  Claim C10. An entry whose record has the \<^verbatim>\<open>NOFETCH\<close> key, with any value, takes no part
  in the fetch: \<open>scr_fetch_files_list\<close> returns the same code and makes the same calls
  (none to fetch the entry, none to add it to the filemap, and the same expected file
  count) as on the file list without such entries.
\<close>

theorem C10_nofetch_key_excludes_entry:
  "scr_fetch_files_list n s cfg (without_nofetch file_list) dir t =
   scr_fetch_files_list n s cfg file_list dir t"
proof (cases "scr_hash_get (Some file_list) SCR_KEY_FILE")
  case None
  then show ?thesis
    by (simp add: scr_fetch_files_list_def scr_hash_get_without_nofetch files_list_id_def
        SCR_KEY_FILE_def SCR_KEY_DATASET_def SCR_SUMMARY_6_KEY_CONTAINER_def)
next
  case (Some fs)
  then show ?thesis
    by (simp add: scr_fetch_files_list_def scr_hash_get_without_nofetch files_list_id_def
        SCR_KEY_FILE_def SCR_KEY_DATASET_def SCR_SUMMARY_6_KEY_CONTAINER_def files_loop_filter)
qed

theorem C10_witness:
  "\<not> fetchable (''red.bin'', demo_red) \<and>
   scr_fetch_files_list 8 demo_sys demo_config (without_nofetch demo_files) ''/cache'' [] =
     (Some SCR_FAILURE, demo_files_log)"
  using C10_nofetch_key_excludes_entry [of 8 demo_sys demo_config demo_files "''/cache''" "[]"]
  by (simp add: demo_files_run fetchable_def scr_hash_elem_get_def SCR_SUMMARY_6_KEY_NOFETCH_def
      demo_red_def)

section \<open>Properties of the flow control window\<close>

lemma in_flight_append: "in_flight (xs @ ys) acc = in_flight ys (in_flight xs acc)"
  by (induction xs acc rule: in_flight.induct) auto

lemma in_flight_Go: "in_flight (log @ [Go r flag]) [] = in_flight log [] @ [r]"
  by (simp add: in_flight_append)

lemma in_flight_Done: "in_flight (log @ [Done r flag]) [] = remove1 r (in_flight log [])"
  by (simp add: in_flight_append)

lemma length_remove1_mem:
  assumes "x \<in> set xs"
  shows "int (length (remove1 x xs)) = int (length xs) - 1"
proof -
  from assms have "1 \<le> length xs" by (cases xs) auto
  with assms show ?thesis by (simp add: length_remove1 of_nat_diff)
qed

lemma distinct_snd_unique:
  "distinct (map snd xs) \<Longrightarrow> (a, r) \<in> set xs \<Longrightarrow> (b, r) \<in> set xs \<Longrightarrow> a = b"
  by (induction xs) (auto simp: image_iff)

lemma filter_absent: "k \<notin> fst ` set xs \<Longrightarrow> filter (\<lambda>p. fst p \<noteq> k) xs = xs"
  by (induction xs) auto

lemma length_filter_key:
  assumes "distinct (map fst xs)" and "(k, r) \<in> set xs"
  shows "int (length (filter (\<lambda>p. fst p \<noteq> k) xs)) = int (length xs) - 1"
  using assms
proof (induction xs)
  case Nil
  then show ?case by simp
next
  case (Cons a xs)
  show ?case
  proof (cases "fst a = k")
    case True
    with Cons.prems have "k \<notin> fst ` set xs" by auto
    with True show ?thesis by (simp add: filter_absent)
  next
    case False
    with Cons show ?thesis by auto
  qed
qed

lemma in_window_all:
  "\<forall>p\<in>set req. 0 \<le> fst p \<and> fst p < fc_w cfg \<Longrightarrow> in_window cfg req = req"
  by (simp add: in_window_def)

lemma fc_inv_init:
  "1 \<le> scr_ranks_world cfg \<Longrightarrow> 0 \<le> scr_fetch_width cfg \<Longrightarrow> fc_inv cfg (fc_init success)"
  by (auto simp: fc_inv_def fc_init_def fc_w_def)


lemma fc_inv_pc_Outer:
  "fc_inv cfg st \<Longrightarrow> fc_pc st \<noteq> Wait_any \<Longrightarrow> fc_inv cfg (st\<lparr>fc_pc := Finished\<rparr>)"
  by (simp add: fc_inv_def)

lemma fc_step_inv:
  assumes "fc_inv cfg st" and "fc_step cfg c st = Some st'" and "1 \<le> scr_fetch_width cfg"
  shows "fc_inv cfg st'"
proof (cases "fc_pc st")
  case Outer_test
  show ?thesis
  proof (cases "fc_i st < scr_ranks_world cfg \<or> fc_outstanding st > 0")
    case True
    with assms(2) Outer_test have "st' = st\<lparr>fc_pc := Inner_test\<rparr>"
      by (simp add: fc_step_def)
    with assms(1) Outer_test True show ?thesis by (auto simp: fc_inv_def)
  next
    case False
    with assms(2) Outer_test have "st' = st\<lparr>fc_pc := Finished\<rparr>"
      by (simp add: fc_step_def)
    with assms(1) Outer_test show ?thesis by (simp add: fc_inv_pc_Outer)
  qed
next
  case Inner_test
  show ?thesis
  proof (cases "fc_i st < scr_ranks_world cfg \<and> fc_outstanding st < fc_w cfg")
    case False
    with assms(2) Inner_test have st': "st' = st\<lparr>fc_pc := Wait_any\<rparr>"
      by (auto simp: fc_step_def)
    from assms(1) Inner_test have a: "fc_i st < scr_ranks_world cfg \<or> 1 \<le> fc_outstanding st"
      and i1: "1 \<le> fc_i st" and le: "fc_outstanding st \<le> fc_w cfg"
      by (auto simp: fc_inv_def)
    have out: "1 \<le> fc_outstanding st"
    proof (rule ccontr)
      assume n: "\<not> 1 \<le> fc_outstanding st"
      with a have lt: "fc_i st < scr_ranks_world cfg" by simp
      with i1 assms(3) have "1 \<le> fc_w cfg" by (auto simp: fc_w_def)
      with n lt False show False by simp
    qed
    from False le have "scr_ranks_world cfg \<le> fc_i st \<or> fc_outstanding st = fc_w cfg" by auto
    with assms(1) out show ?thesis unfolding st' fc_inv_def by simp
  next
    case True
    with assms(2) Inner_test have st': "st' = st\<lparr>fc_req := (fc_index st, fc_i st) # filter (\<lambda>p. fst p \<noteq> fc_index st) (fc_req st),
                        fc_log := fc_log st @ [Go (fc_i st) (fc_success st)],
                        fc_outstanding := fc_outstanding st + 1,
                        fc_index := fc_index st + 1,
                        fc_i := fc_i st + 1\<rparr>"
      by (simp add: fc_step_def)
    from assms(1) True Inner_test have ph: "0 \<le> fc_index st" "fc_index st < fc_w cfg"
        "fc_index st \<notin> fst ` set (fc_req st)"
        "fc_outstanding st = fc_w cfg - 1 \<or>
         ((\<forall>p\<in>set (fc_req st). fst p < fc_index st) \<and> fc_outstanding st = fc_index st)"
      by (auto simp: fc_inv_def)
    from ph(3) have keep: "filter (\<lambda>p. fst p \<noteq> fc_index st) (fc_req st) = fc_req st"
      by (rule filter_absent)
    from assms(1) have fresh: "fc_i st \<notin> set (in_flight (fc_log st) [])"
      by (auto simp: fc_inv_def)
    from assms(1) fresh have fresh2: "fc_i st \<notin> snd ` set (fc_req st)"
      by (force simp: fc_inv_def)
    have basic: "0 \<le> fc_outstanding st + 1 \<and> fc_outstanding st + 1 \<le> fc_w cfg \<and>
      int (length (in_flight (fc_log st) [] @ [fc_i st])) = fc_outstanding st + 1 \<and>
      distinct (in_flight (fc_log st) [] @ [fc_i st]) \<and>
      (\<forall>r\<in>set (in_flight (fc_log st) [] @ [fc_i st]). r < fc_i st + 1) \<and>
      1 \<le> fc_i st + 1"
      using assms(1) True fresh by (auto simp: fc_inv_def)
    have reqs: "(\<forall>p\<in>set ((fc_index st, fc_i st) # fc_req st).
                   snd p \<in> set (in_flight (fc_log st) [] @ [fc_i st]) \<and>
                   0 \<le> fst p \<and> fst p < fc_w cfg) \<and>
      distinct (map snd ((fc_index st, fc_i st) # fc_req st)) \<and>
      distinct (map fst ((fc_index st, fc_i st) # fc_req st)) \<and>
      int (length ((fc_index st, fc_i st) # fc_req st)) = fc_outstanding st + 1"
      using assms(1) ph(1,2,3) fresh2 by (auto simp: fc_inv_def)
    have phase: "scr_ranks_world cfg \<le> fc_i st + 1 \<or> fc_outstanding st + 1 = fc_w cfg \<or>
       (0 \<le> fc_index st + 1 \<and> fc_index st + 1 < fc_w cfg \<and>
        fc_index st + 1 \<notin> fst ` set ((fc_index st, fc_i st) # fc_req st) \<and>
        (fc_outstanding st + 1 = fc_w cfg - 1 \<or>
         ((\<forall>p\<in>set ((fc_index st, fc_i st) # fc_req st). fst p < fc_index st + 1) \<and>
          fc_outstanding st + 1 = fc_index st + 1)))"
    proof (cases "fc_outstanding st + 1 = fc_w cfg")
      case True
      then show ?thesis by simp
    next
      case ne: False
      with ph(4) have A: "\<forall>p\<in>set (fc_req st). fst p < fc_index st" "fc_outstanding st = fc_index st"
        by auto
      from A(2) ne basic have "fc_index st + 1 < fc_w cfg" by simp
      moreover from A(1) have "fc_index st + 1 \<notin> fst ` set ((fc_index st, fc_i st) # fc_req st)"
        by force
      moreover from A(1) have "\<forall>p\<in>set ((fc_index st, fc_i st) # fc_req st). fst p < fc_index st + 1"
        by force
      ultimately show ?thesis using ph(1) A(2) by simp
    qed
    from basic reqs phase Inner_test show ?thesis
      unfolding st' fc_inv_def keep by (simp add: in_flight_Go)
  qed
next
  case Wait_any
  obtain k flag where c: "c = (k, flag)" by (cases c)
  from assms(1) Wait_any have out: "1 \<le> fc_outstanding st"
    and len: "int (length (fc_req st)) = fc_outstanding st"
    and rng: "\<forall>p\<in>set (fc_req st). 0 \<le> fst p \<and> fst p < fc_w cfg"
    and ph: "scr_ranks_world cfg \<le> fc_i st \<or> fc_outstanding st = fc_w cfg"
    by (auto simp: fc_inv_def)
  from rng have win: "in_window cfg (fc_req st) = fc_req st" by (rule in_window_all)
  from out len have ne: "fc_req st \<noteq> []" by auto
  from assms(2) Wait_any c win ne obtain r where r: "map_of (fc_req st) k = Some r"
    and st': "st' = st\<lparr>fc_index := k,
                                  fc_req := filter (\<lambda>p. fst p \<noteq> k) (fc_req st),
                                  fc_log := fc_log st @ [Done r flag],
                                  fc_success := (if flag \<noteq> SCR_SUCCESS then SCR_FAILURE
                                                 else fc_success st),
                                  fc_outstanding := fc_outstanding st - 1,
                                  fc_pc := Outer_test\<rparr>"
    by (auto simp: fc_step_def split: option.splits)
  from r have mem: "(k, r) \<in> set (fc_req st)" by (rule map_of_SomeD)
  with assms(1) have rin: "r \<in> set (in_flight (fc_log st) [])"
    by (force simp: fc_inv_def)
  from mem rng have krng: "0 \<le> k" "k < fc_w cfg" by auto
  have others: "r' \<noteq> r" if "(k', r') \<in> set (fc_req st)" "k' \<noteq> k" for k' r'
    using distinct_snd_unique[of "fc_req st" k r k'] assms(1) mem that
    by (auto simp: fc_inv_def)
  from assms(1) have dk: "distinct (map fst (fc_req st))" by (simp add: fc_inv_def)
  have flen: "int (length (filter (\<lambda>p. fst p \<noteq> k) (fc_req st))) = fc_outstanding st - 1"
    using length_filter_key[OF dk mem] len by simp
  have kfree: "k \<notin> fst ` set (filter (\<lambda>p. fst p \<noteq> k) (fc_req st))" by auto
  have basic: "0 \<le> fc_outstanding st - 1 \<and> fc_outstanding st - 1 \<le> fc_w cfg \<and>
      int (length (remove1 r (in_flight (fc_log st) []))) = fc_outstanding st - 1 \<and>
      distinct (remove1 r (in_flight (fc_log st) [])) \<and>
      (\<forall>x\<in>set (remove1 r (in_flight (fc_log st) [])). x < fc_i st) \<and>
      1 \<le> fc_i st"
    using assms(1) out rin by (auto simp: fc_inv_def length_remove1_mem)
  have reqs: "(\<forall>p\<in>set (filter (\<lambda>p. fst p \<noteq> k) (fc_req st)).
                   snd p \<in> set (remove1 r (in_flight (fc_log st) [])) \<and>
                   0 \<le> fst p \<and> fst p < fc_w cfg) \<and>
      distinct (map snd (filter (\<lambda>p. fst p \<noteq> k) (fc_req st))) \<and>
      distinct (map fst (filter (\<lambda>p. fst p \<noteq> k) (fc_req st)))"
    using assms(1) others by (fastforce simp: fc_inv_def distinct_map_filter)
  from ph have phase: "scr_ranks_world cfg \<le> fc_i st \<or> fc_outstanding st - 1 = fc_w cfg - 1"
    by auto
  from basic reqs flen phase krng kfree show ?thesis
    unfolding st' fc_inv_def by (simp add: in_flight_Done) blast
next
  case Finished
  with assms show ?thesis by (simp add: fc_step_def)
qed

lemma fc_run_inv:
  "fc_inv cfg st \<Longrightarrow> 1 \<le> scr_fetch_width cfg \<Longrightarrow> fc_inv cfg (fc_run cfg cs st)"
  by (induction cs arbitrary: st) (auto split: option.splits intro: fc_step_inv)

lemma fc_step_progress:
  assumes "fc_pc st \<noteq> Finished"
  shows "\<exists>c st'. fc_step cfg c st = Some st'"
proof (cases "fc_pc st")
  case Wait_any
  show ?thesis
  proof (cases "in_window cfg (fc_req st)")
    case Nil
    with Wait_any show ?thesis by (simp add: fc_step_def)
  next
    case (Cons p ps)
    obtain k r where p: "p = (k, r)" by (cases p)
    with Cons Wait_any have "fc_step cfg (k, SCR_SUCCESS) st \<noteq> None"
      by (simp add: fc_step_def)
    then show ?thesis by blast
  qed
qed (use assms in \<open>auto simp: fc_step_def\<close>)

text \<open>
  Claim C4. With a fetch width of at least 1 and at least one rank, every state that
  rank 0's loop can reach, whatever replies arrive in whatever order, has \<open>outstanding\<close>
  at most \<open>W = min(scr_fetch_width, scr_ranks_world - 1)\<close>, and \<open>outstanding\<close> is the number
  of ranks that were sent a start signal and whose reply has not been received. With a
  width of 0 and two ranks or more \<^verbatim>\<open>MPI_Waitany\<close> is given no request, the loop goes on
  with the index \<^verbatim>\<open>MPI_UNDEFINED\<close>, outside the arrays, and a start signal is sent all the
  same: the theorem does not cover that case.
\<close>

theorem C4_flow_control_window_bound:
  assumes "1 \<le> scr_fetch_width cfg" and "1 \<le> scr_ranks_world cfg"
  shows "fc_outstanding (fc_run cfg choices (fc_init success))
           \<le> min (scr_fetch_width cfg) (scr_ranks_world cfg - 1) \<and>
         int (length (in_flight (fc_log (fc_run cfg choices (fc_init success))) []))
           = fc_outstanding (fc_run cfg choices (fc_init success))"
proof -
  from assms have w: "fc_w cfg = min (scr_fetch_width cfg) (scr_ranks_world cfg - 1)"
    and w0: "0 \<le> scr_fetch_width cfg"
    by (auto simp: fc_w_def)
  from fc_run_inv[OF fc_inv_init[OF assms(2) w0] assms(1), of choices success] show ?thesis
    by (simp add: fc_inv_def w)
qed

theorem C4_witness:
  "(1::int) \<le> scr_fetch_width demo_config \<and> 1 \<le> scr_ranks_world demo_config \<and>
   fc_log (fc_run demo_config (replicate 7 (0, SCR_FAILURE)) (fc_init SCR_SUCCESS)) =
     [Go 1 SCR_SUCCESS, Done 1 SCR_FAILURE, Go 2 SCR_FAILURE] \<and>
   fc_outstanding (fc_run demo_config (replicate 7 (0, SCR_FAILURE)) (fc_init SCR_SUCCESS)) \<le> 1 \<and>
   in_flight (fc_log (fc_run demo_config (replicate 7 (0, SCR_FAILURE)) (fc_init SCR_SUCCESS))) []
     = [2]"
proof -
  have h1: "1 \<le> scr_fetch_width demo_config" by code_simp
  have h2: "1 \<le> scr_ranks_world demo_config" by code_simp
  have h3: "fc_log (fc_run demo_config (replicate 7 (0, SCR_FAILURE)) (fc_init SCR_SUCCESS)) =
     [Go 1 SCR_SUCCESS, Done 1 SCR_FAILURE, Go 2 SCR_FAILURE]" by code_simp
  have h4: "min (scr_fetch_width demo_config) (scr_ranks_world demo_config - 1) = 1" by code_simp
  have h5: "in_flight [Go 1 SCR_SUCCESS, Done 1 SCR_FAILURE, Go 2 SCR_FAILURE] [] = [2]" by simp
  from C4_flow_control_window_bound [OF h1 h2, of "replicate 7 (0, SCR_FAILURE)" SCR_SUCCESS]
    h1 h2 h3 h4 h5 show ?thesis by simp
qed

section \<open>Properties of the candidate loop\<close>

lemma sync_body_unfold:
  assumes "select_target s cfg read_index_file (sy_current_checkpoint_id st) (sy_logs st 0) =
             (target, cid)"
      and "logs1 = on_rank_0 (attempt_events cfg read_index_file target cid) (sy_logs st)"
      and "scr_fetch_files s (logs1 0) (fetch_dir_of s cfg target) = (rc, d, c)"
      and "st1 = st\<lparr>sy_fetch_attempted :=
                       (if target \<noteq> [] then (sy_fetch_attempted st)(0 := 1) else sy_fetch_attempted st),
                     sy_current_checkpoint_id := cid,
                     sy_targets := sy_targets st @ [target]\<rparr>"
  shows "sync_body s cfg read_index_file st =
     (if rc = SCR_SUCCESS
      then (False, rc, st1\<lparr>sy_logs := on_rank_0 [E_symlink target (scr_current s cfg)] logs1\<rparr>)
      else if fetch_dir_of s cfg target \<noteq> []
      then (True, rc,
            st1\<lparr>sy_logs :=
                   on_rank_0
                     (if read_index_file \<and> cid \<noteq> - 1 \<and> target \<noteq> []
                      then [E_scr_index_mark_failed cid target, E_scr_index_write (scr_par_prefix cfg)]
                      else [])
                     (on_every_rank [E_scr_file_unlink (scr_current s cfg)] logs1)\<rparr>)
      else (False, rc, st1\<lparr>sy_logs := on_every_rank [E_scr_file_unlink (scr_current s cfg)] logs1\<rparr>))"
  using assms(1,3) unfolding assms(2,4)
  by (simp add: sync_body_def Let_def)

lemma scr_fetch_files_empty: "scr_fetch_files s t0 [] = (SCR_FAILURE, 0, 0)"
  by (simp add: scr_fetch_files_def)

lemma sync_body_fetch_attempted:
  assumes "sync_body s cfg read_index_file st = (continue_fetching, rc, st')"
  shows "\<exists>target. sy_targets st' = sy_targets st @ [target] \<and>
           sy_fetch_attempted st' 0 = (if target \<noteq> [] then 1 else sy_fetch_attempted st 0)"
proof -
  obtain target cid where sel: "select_target s cfg read_index_file (sy_current_checkpoint_id st) (sy_logs st 0) =
             (target, cid)"
    by (cases "select_target s cfg read_index_file (sy_current_checkpoint_id st) (sy_logs st 0)") auto
  define logs1 where "logs1 = on_rank_0 (attempt_events cfg read_index_file target cid) (sy_logs st)"
  define st1 where "st1 = st\<lparr>sy_fetch_attempted :=
                       (if target \<noteq> [] then (sy_fetch_attempted st)(0 := 1) else sy_fetch_attempted st),
                     sy_current_checkpoint_id := cid,
                     sy_targets := sy_targets st @ [target]\<rparr>"
  obtain rc1 d c where fo: "scr_fetch_files s (logs1 0) (fetch_dir_of s cfg target) = (rc1, d, c)"
    by (cases "scr_fetch_files s (logs1 0) (fetch_dir_of s cfg target)") auto
  from assms have "sy_targets st' = sy_targets st1 \<and> sy_fetch_attempted st' = sy_fetch_attempted st1"
    unfolding sync_body_unfold[OF sel logs1_def fo st1_def]
    by (auto split: if_splits)
  then have "sy_targets st' = sy_targets st @ [target] \<and>
           sy_fetch_attempted st' 0 = (if target \<noteq> [] then 1 else sy_fetch_attempted st 0)"
    by (simp add: st1_def)
  then show ?thesis by blast
qed

lemma sync_loop_fetch_attempted:
  assumes "sync_loop n s cfg read_index_file st = (r, st')"
      and "sy_fetch_attempted st 0 = (if \<exists>tg\<in>set (sy_targets st). tg \<noteq> [] then 1 else v)"
  shows "sy_fetch_attempted st' 0 = (if \<exists>tg\<in>set (sy_targets st'). tg \<noteq> [] then 1 else v)"
  using assms
proof (induction n arbitrary: st)
  case 0
  then show ?case by simp
next
  case (Suc n)
  obtain cont rc st1 where b: "sync_body s cfg read_index_file st = (cont, rc, st1)"
    by (cases "sync_body s cfg read_index_file st") auto
  from sync_body_fetch_attempted[OF b] obtain target where t: "sy_targets st1 = sy_targets st @ [target]"
    "sy_fetch_attempted st1 0 = (if target \<noteq> [] then 1 else sy_fetch_attempted st 0)" by blast
  with Suc.prems(2) have inv1: "sy_fetch_attempted st1 0 = (if \<exists>tg\<in>set (sy_targets st1). tg \<noteq> [] then 1 else v)"
    by auto
  show ?case
  proof (cases cont)
    case True
    with Suc.prems(1) b have "sync_loop n s cfg read_index_file st1 = (r, st')" by simp
    from Suc.IH[OF this inv1] show ?thesis .
  next
    case False
    with Suc.prems(1) b have "st' = st1" by simp
    with inv1 show ?thesis by simp
  qed
qed

text \<open>
  Claim C6, as amended. Let rank 0 select \<open>target\<close> with checkpoint id \<open>cid\<close> in some
  iteration of the loop of \<open>scr_fetch_sync\<close>. If the attempt fails and the fetch directory
  is not empty, then the current link is unlinked, rank 0 then records the failure in
  the index and writes the index provided the index file had been read and \<open>cid\<close> is
  not \<open>-1\<close> (otherwise it logs nothing more), and the loop goes on with \<open>cid\<close> as the new
  ceiling. If the target is empty, the loop ends with this iteration and the return code
  is \<^verbatim>\<open>SCR_FAILURE\<close>. The calls are those of rank 0's log.
\<close>

theorem C6_failed_attempt_unlinks_and_marks_failed:
  assumes "select_target s cfg read_index_file (sy_current_checkpoint_id st) (sy_logs st 0) =
             (target, cid)"
      and "sync_body s cfg read_index_file st = (continue_fetching, rc, st')"
  shows "(rc \<noteq> SCR_SUCCESS \<and> fetch_dir_of s cfg target \<noteq> [] \<longrightarrow>
            continue_fetching \<and>
            sy_current_checkpoint_id st' = cid \<and>
            sy_logs st' 0 =
              sy_logs st 0 @ attempt_events cfg read_index_file target cid
                @ [E_scr_file_unlink (scr_current s cfg)]
                @ (if read_index_file \<and> cid \<noteq> - 1
                   then [E_scr_index_mark_failed cid target, E_scr_index_write (scr_par_prefix cfg)]
                   else []) \<and>
            (\<forall>n. sync_loop (Suc n) s cfg read_index_file st = sync_loop n s cfg read_index_file st')) \<and>
         (target = [] \<longrightarrow>
            \<not> continue_fetching \<and> rc = SCR_FAILURE \<and>
            (\<forall>n. sync_loop (Suc n) s cfg read_index_file st = (Some SCR_FAILURE, st')))"
proof -
  define logs1 where "logs1 = on_rank_0 (attempt_events cfg read_index_file target cid) (sy_logs st)"
  define st1 where "st1 = st\<lparr>sy_fetch_attempted :=
                       (if target \<noteq> [] then (sy_fetch_attempted st)(0 := 1) else sy_fetch_attempted st),
                     sy_current_checkpoint_id := cid,
                     sy_targets := sy_targets st @ [target]\<rparr>"
  obtain rc1 d c where fo: "scr_fetch_files s (logs1 0) (fetch_dir_of s cfg target) = (rc1, d, c)"
    by (cases "scr_fetch_files s (logs1 0) (fetch_dir_of s cfg target)") auto
  note unf = sync_body_unfold[OF assms(1) logs1_def fo st1_def]
  have first: "continue_fetching \<and>
            sy_current_checkpoint_id st' = cid \<and>
            sy_logs st' 0 =
              sy_logs st 0 @ attempt_events cfg read_index_file target cid
                @ [E_scr_file_unlink (scr_current s cfg)]
                @ (if read_index_file \<and> cid \<noteq> - 1
                   then [E_scr_index_mark_failed cid target, E_scr_index_write (scr_par_prefix cfg)]
                   else []) \<and>
            (\<forall>n. sync_loop (Suc n) s cfg read_index_file st = sync_loop n s cfg read_index_file st')"
    if fail: "rc \<noteq> SCR_SUCCESS" and dir: "fetch_dir_of s cfg target \<noteq> []"
  proof -
    from dir have tne: "target \<noteq> []" by (auto simp: fetch_dir_of_def split: if_splits)
    from assms(2) fail have rc1: "rc1 \<noteq> SCR_SUCCESS"
      unfolding unf by (auto split: if_splits)
    from assms(2) rc1 dir have res: "continue_fetching"
      "st' = st1\<lparr>sy_logs :=
                   on_rank_0
                     (if read_index_file \<and> cid \<noteq> - 1 \<and> target \<noteq> []
                      then [E_scr_index_mark_failed cid target, E_scr_index_write (scr_par_prefix cfg)]
                      else [])
                     (on_every_rank [E_scr_file_unlink (scr_current s cfg)] logs1)\<rparr>"
      unfolding unf by simp_all
    have a: "sy_current_checkpoint_id st' = cid" by (simp add: res(2) st1_def)
    have c: "sy_logs st' 0 =
              sy_logs st 0 @ attempt_events cfg read_index_file target cid
                @ [E_scr_file_unlink (scr_current s cfg)]
                @ (if read_index_file \<and> cid \<noteq> - 1
                   then [E_scr_index_mark_failed cid target, E_scr_index_write (scr_par_prefix cfg)]
                   else [])"
      using tne by (simp add: res(2) st1_def on_rank_0_def on_every_rank_def logs1_def)
    have d: "sync_loop (Suc n) s cfg read_index_file st = sync_loop n s cfg read_index_file st'" for n
      using assms(2) res(1) by simp
    from res(1) a c d show ?thesis by blast
  qed
  have second: "\<not> continue_fetching \<and> rc = SCR_FAILURE \<and>
            (\<forall>n. sync_loop (Suc n) s cfg read_index_file st = (Some SCR_FAILURE, st'))"
    if empty: "target = []"
  proof -
    from empty have fd: "fetch_dir_of s cfg target = []" by (simp add: fetch_dir_of_def)
    from fo fd have rc1: "rc1 = SCR_FAILURE" by (simp add: scr_fetch_files_empty)
    from assms(2) rc1 fd have res: "\<not> continue_fetching" "rc = SCR_FAILURE"
      unfolding unf by simp_all
    with assms(2) show ?thesis by simp
  qed
  from first second show ?thesis by blast
qed


theorem C6_witness:
  "select_target demo_sys_index demo_config True (- 1) [] = (''ckpt.7'', 7) \<and>
   fst (snd (sync_body demo_sys_index demo_config True demo_sync_state)) \<noteq> SCR_SUCCESS \<and>
   fetch_dir_of demo_sys_index demo_config ''ckpt.7'' \<noteq> [] \<and>
   fst (sync_body demo_sys_index demo_config True demo_sync_state) \<and>
   sy_logs (snd (snd (sync_body demo_sys_index demo_config True demo_sync_state))) 0 =
     [E_scr_index_mark_fetched 7 ''ckpt.7'', E_scr_index_write ''/pfs'',
      E_scr_file_unlink ''/pfs/scr.current'',
      E_scr_index_mark_failed 7 ''ckpt.7'', E_scr_index_write ''/pfs'']"
proof -
  have h1: "select_target demo_sys_index demo_config True (sy_current_checkpoint_id demo_sync_state)
              (sy_logs demo_sync_state 0) = (''ckpt.7'', 7)"
    by code_simp
  have h1': "select_target demo_sys_index demo_config True (- 1) [] = (''ckpt.7'', 7)"
    by code_simp
  have h2: "sync_body demo_sys_index demo_config True demo_sync_state =
      (fst (sync_body demo_sys_index demo_config True demo_sync_state),
       fst (snd (sync_body demo_sys_index demo_config True demo_sync_state)),
       snd (snd (sync_body demo_sys_index demo_config True demo_sync_state)))"
    by simp
  have h3: "fst (snd (sync_body demo_sys_index demo_config True demo_sync_state)) \<noteq> SCR_SUCCESS"
    by code_simp
  have h4: "fetch_dir_of demo_sys_index demo_config ''ckpt.7'' \<noteq> []"
    by code_simp
  have e: "sy_logs demo_sync_state 0 @ attempt_events demo_config True ''ckpt.7'' 7
                @ [E_scr_file_unlink (scr_current demo_sys_index demo_config)]
                @ (if True \<and> (7::int) \<noteq> - 1
                   then [E_scr_index_mark_failed 7 ''ckpt.7'',
                         E_scr_index_write (scr_par_prefix demo_config)]
                   else []) =
     [E_scr_index_mark_fetched 7 ''ckpt.7'', E_scr_index_write ''/pfs'',
      E_scr_file_unlink ''/pfs/scr.current'',
      E_scr_index_mark_failed 7 ''ckpt.7'', E_scr_index_write ''/pfs'']"
    by code_simp
  from C6_failed_attempt_unlinks_and_marks_failed [OF h1 h2] h3 h4
  have "fst (sync_body demo_sys_index demo_config True demo_sync_state) \<and>
     sy_logs (snd (snd (sync_body demo_sys_index demo_config True demo_sync_state))) 0 =
       sy_logs demo_sync_state 0 @ attempt_events demo_config True ''ckpt.7'' 7
                @ [E_scr_file_unlink (scr_current demo_sys_index demo_config)]
                @ (if True \<and> (7::int) \<noteq> - 1
                   then [E_scr_index_mark_failed 7 ''ckpt.7'',
                         E_scr_index_write (scr_par_prefix demo_config)]
                   else [])"
    by blast
  with e h1' h3 h4 show ?thesis by simp
qed

text \<open>
  The claim as it was stated fails when the index file could not be read: the link
  names \<open>ckpt.7\<close>, the attempt on \<open>/pfs/ckpt.7\<close> fails, the loop goes on, and rank 0 has
  only unlinked the link; nothing was recorded in the index.
\<close>

theorem C6_counterexample:
  "scr_index_read demo_sys [] (scr_par_prefix demo_config) \<noteq> SCR_SUCCESS \<and>
   select_target demo_sys demo_config False (- 1) [] = (''ckpt.7'', - 1) \<and>
   fetch_dir_of demo_sys demo_config ''ckpt.7'' = ''/pfs/ckpt.7'' \<and>
   fst (sync_body demo_sys demo_config False demo_sync_state) \<and>
   fst (snd (sync_body demo_sys demo_config False demo_sync_state)) = SCR_FAILURE \<and>
   sy_logs (snd (snd (sync_body demo_sys demo_config False demo_sync_state))) 0 =
     [E_scr_file_unlink ''/pfs/scr.current'']"
  by code_simp

text \<open>
  Claim C7, as amended. When \<open>scr_fetch_sync\<close> returns, \<^verbatim>\<open>*fetch_attempted\<close> is on every
  rank 1 if rank 0 selected a candidate in some iteration, and otherwise the value it
  had on rank 0 at the call: the function sets it to 1 and never to 0. So it is true
  exactly when a candidate was selected, provided the caller on rank 0 passed in 0.
\<close>

theorem C7_fetch_attempted_after_broadcast:
  assumes "scr_fetch_sync n s cfg fa = (Some rc, st)"
  shows "\<forall>r. sy_fetch_attempted st r = (if \<exists>tg\<in>set (sy_targets st). tg \<noteq> [] then 1 else fa 0)"
proof -
  define rif where "rif = (scr_index_read s [] (scr_par_prefix cfg) = SCR_SUCCESS)"
  define st0 where "st0 = \<lparr>sy_logs = (\<lambda>r. []), sy_fetch_attempted = fa,
                 sy_current_checkpoint_id = - 1, sy_targets = []\<rparr>"
  obtain r1 st1 where l: "sync_loop n s cfg rif st0 = (r1, st1)"
    by (cases "sync_loop n s cfg rif st0") auto
  have inv0: "sy_fetch_attempted st0 0 = (if \<exists>tg\<in>set (sy_targets st0). tg \<noteq> [] then 1 else fa 0)"
    by (simp add: st0_def)
  from sync_loop_fetch_attempted[OF l inv0]
  have inv: "sy_fetch_attempted st1 0 = (if \<exists>tg\<in>set (sy_targets st1). tg \<noteq> [] then 1 else fa 0)" .
  from assms l have "st = st1\<lparr>sy_fetch_attempted := (\<lambda>r. sy_fetch_attempted st1 0)\<rparr>"
    by (cases r1) (auto simp: scr_fetch_sync_def Let_def rif_def[symmetric] st0_def[symmetric])
  with inv show ?thesis by simp
qed

theorem C7_witness:
  "scr_fetch_sync 5 demo_sys demo_config (\<lambda>r. 0) =
     (Some SCR_FAILURE, snd (scr_fetch_sync 5 demo_sys demo_config (\<lambda>r. 0))) \<and>
   sy_targets (snd (scr_fetch_sync 5 demo_sys demo_config (\<lambda>r. 0))) = [''ckpt.7'', []] \<and>
   sy_fetch_attempted (snd (scr_fetch_sync 5 demo_sys demo_config (\<lambda>r. 0))) 2 = 1"
proof -
  have h0: "fst (scr_fetch_sync 5 demo_sys demo_config (\<lambda>r. 0)) = Some SCR_FAILURE"
    by code_simp
  have h: "scr_fetch_sync 5 demo_sys demo_config (\<lambda>r. 0) =
     (Some SCR_FAILURE, snd (scr_fetch_sync 5 demo_sys demo_config (\<lambda>r. 0)))"
    using h0 by (simp add: prod_eq_iff)
  have tg: "sy_targets (snd (scr_fetch_sync 5 demo_sys demo_config (\<lambda>r. 0))) = [''ckpt.7'', []]"
    by code_simp
  from C7_fetch_attempted_after_broadcast [OF h] tg
  have "sy_fetch_attempted (snd (scr_fetch_sync 5 demo_sys demo_config (\<lambda>r. 0))) 2 = 1"
    by simp
  with h tg show ?thesis by blast
qed

text \<open>
  The claim as it was stated fails when the caller passes in 1: no link, no index, no
  candidate is selected, and \<^verbatim>\<open>*fetch_attempted\<close> is 1 on return on every rank.
\<close>

theorem C7_counterexample:
  "fst (scr_fetch_sync 5 demo_sys_no_link demo_config (\<lambda>r. 1)) = Some SCR_FAILURE \<and>
   sy_targets (snd (scr_fetch_sync 5 demo_sys_no_link demo_config (\<lambda>r. 1))) = [[]] \<and>
   sy_fetch_attempted (snd (scr_fetch_sync 5 demo_sys_no_link demo_config (\<lambda>r. 1))) 0 = 1 \<and>
   sy_fetch_attempted (snd (scr_fetch_sync 5 demo_sys_no_link demo_config (\<lambda>r. 1))) 1 = 1"
  by code_simp

text \<open>
  Claim C8 (the code differs). The claim says that only rank 0 creates or unlinks the
  current link. The link is created by rank 0 only, but \<^verbatim>\<open>scr_file_unlink(scr_current)\<close>
  (line 934) stands outside the test for rank 0: in this run of two failed attempts rank
  1 unlinks the link twice.
\<close>

theorem C8_rank_1_unlinks_current:
  "fst (scr_fetch_sync 5 demo_sys demo_config (\<lambda>r. 0)) = Some SCR_FAILURE \<and>
   sy_logs (snd (scr_fetch_sync 5 demo_sys demo_config (\<lambda>r. 0))) 1 =
     [E_scr_file_unlink ''/pfs/scr.current'', E_scr_file_unlink ''/pfs/scr.current'']"
  by code_simp

section \<open>Properties of the summary scatter\<close>

text \<open>
  Claim C9 (the code differs). The claim, like the comment at line 541, says that the
  \<^verbatim>\<open>PATH\<close> entry is added only when no containers are in use. The loop of lines 543 to
  550 has no such test: here the summary has containers, the file list of rank 0 gets
  the container hash, and its file \<open>x.bin\<close> gets \<open>PATH\<close> all the same.
\<close>

theorem C9_path_added_with_containers:
  "scr_fetch_summary demo_sys_summary demo_config ''/pfs/ckpt.7'' scr_hash_new [] =
     (SCR_SUCCESS,
      Hash [(''DSET'', Hash [(''ID'', leaf ''7''), (''CKPT'', leaf ''7'')]),
            (''CTR'', demo_containers),
            (''FILE'',
             Hash [(''x.bin'', Hash [(''SIZE'', leaf ''8''), (''SEG'', demo_segments),
                                     (''PATH'', leaf ''/pfs/ckpt.7'')])])])"
  by code_simp

end
